theory Spec2Isabelle
  imports Main "HOL-Library.Word"
begin

section \<open>The expression printer of parser/unparser.go\<close>

text \<open>
  The printer walks an expression tree and writes its text into a growing buffer. The
  model follows the Go source function by function. A Go method that mutates the unparser
  and returns an error becomes a function from the unparser to the new unparser and an
  optional error; a run-time panic (an index out of range, a nil pointer) is a third
  outcome, so that every way the source can leave a function is a value of the model.
\<close>

subsection \<open>Machine integers\<close>

type_synonym int32 = "32 word"
type_synonym int64 = "64 word"
type_synonym rune = "32 word"

subsection \<open>The operator table and the formatting library\<close>

text \<open>
  Package common/operators is not among the sources: its string constants and its two
  lookups are parameters of the model. The fields are the names the printer refers to.
\<close>

record operators =
  Conditional :: string
  Index :: string
  LogicalNot :: string
  Negate :: string
  Add :: string
  Divide :: string
  Equals :: string
  Greater :: string
  GreaterEquals :: string
  In :: string
  Less :: string
  LessEquals :: string
  LogicalAnd :: string
  LogicalOr :: string
  Modulo :: string
  Multiply :: string
  NotEquals :: string
  OldIn :: string
  Subtract :: string
  FindReverse :: "string \<Rightarrow> string option"
  Precedence :: "string \<Rightarrow> int"

text \<open>
  Of Go's strconv the printer calls FormatBool, FormatInt, FormatUint, FormatFloat and
  Quote. The first three are written out below; the shortest round-trip formatting of a
  float64 and the quoting of a string stay parameters.
\<close>

record strconv =
  FormatFloat :: "64 word \<Rightarrow> string"
  Quote :: "string \<Rightarrow> string"

subsection \<open>Expression trees\<close>

text \<open>
  An expression carries its id and one of seven kinds, or no kind at all. Message-typed
  fields that may be unset (a call's target, a select's operand, an entry's value) are
  options: Go reads them as nil pointers. A comprehension is opaque to the printer, so
  its own fields are left out.
\<close>

datatype Constant =
    BoolValue bool
  | BytesValue string
  | DoubleValue "64 word"
  | Int64Value int64
  | NullValue
  | StringValue string
  | Uint64Value "64 word"
  | OtherConstant

datatype expr =
    CallExpr int64 "expr option" string "expr list"
  | ComprehensionExpr int64
  | ConstExpr int64 Constant
  | IdentExpr int64 string
  | ListExpr int64 "expr list"
  | SelectExpr int64 "expr option" string bool
  | StructExpr int64 string "entry list"
  | NoExprKind int64
and entry =
    Entry int64 entry_key "expr option"
and entry_key =
    FieldKey string
  | MapKey expr
  | NoKey

text \<open>The generated getters: each returns the zero value on a node of another kind.\<close>

fun GetId :: "expr \<Rightarrow> int64" where
  "GetId (CallExpr i _ _ _) = i"
| "GetId (ComprehensionExpr i) = i"
| "GetId (ConstExpr i _) = i"
| "GetId (IdentExpr i _) = i"
| "GetId (ListExpr i _) = i"
| "GetId (SelectExpr i _ _ _) = i"
| "GetId (StructExpr i _ _) = i"
| "GetId (NoExprKind i) = i"

fun GetFunction :: "expr \<Rightarrow> string" where
  "GetFunction (CallExpr _ _ f _) = f"
| "GetFunction _ = []"

fun GetArgs :: "expr \<Rightarrow> expr list" where
  "GetArgs (CallExpr _ _ _ args) = args"
| "GetArgs _ = []"

fun GetTarget :: "expr \<Rightarrow> expr option" where
  "GetTarget (CallExpr _ t _ _) = t"
| "GetTarget _ = None"

fun GetConstExpr :: "expr \<Rightarrow> Constant" where
  "GetConstExpr (ConstExpr _ c) = c"
| "GetConstExpr _ = OtherConstant"

fun GetName :: "expr \<Rightarrow> string" where
  "GetName (IdentExpr _ n) = n"
| "GetName _ = []"

fun GetElements :: "expr \<Rightarrow> expr list" where
  "GetElements (ListExpr _ es) = es"
| "GetElements _ = []"

fun GetOperand :: "expr \<Rightarrow> expr option" where
  "GetOperand (SelectExpr _ e _ _) = e"
| "GetOperand _ = None"

fun GetField :: "expr \<Rightarrow> string" where
  "GetField (SelectExpr _ _ f _) = f"
| "GetField _ = []"

fun GetTestOnly :: "expr \<Rightarrow> bool" where
  "GetTestOnly (SelectExpr _ _ _ t) = t"
| "GetTestOnly _ = False"

fun GetMessageName :: "expr \<Rightarrow> string" where
  "GetMessageName (StructExpr _ n _) = n"
| "GetMessageName _ = []"

fun GetEntries :: "expr \<Rightarrow> entry list" where
  "GetEntries (StructExpr _ _ es) = es"
| "GetEntries _ = []"

fun entry_GetId :: "entry \<Rightarrow> int64" where
  "entry_GetId (Entry i _ _) = i"

fun GetFieldKey :: "entry \<Rightarrow> string" where
  "GetFieldKey (Entry _ (FieldKey f) _) = f"
| "GetFieldKey _ = []"

fun GetMapKey :: "entry \<Rightarrow> expr option" where
  "GetMapKey (Entry _ (MapKey k) _) = Some k"
| "GetMapKey _ = None"

fun GetValue :: "entry \<Rightarrow> expr option" where
  "GetValue (Entry _ _ v) = v"

subsection \<open>Source positions and the unparser\<close>

text \<open>
  A nil SourceInfo behaves as the empty one: its getters return an empty map and an
  empty slice.
\<close>

record source_info =
  positions :: "int64 \<rightharpoonup> int32"
  line_offsets :: "int32 list"

record unparser =
  info :: source_info
  str :: string
  offset :: int32

datatype error =
    UnsupportedExpr expr
  | CannotUnmangle string
  | Unimplemented expr

datatype panic = IndexOutOfRange | NilDereference

datatype 'a outcome = Return 'a | Panic panic

type_synonym visited = "(unparser \<times> error option) outcome"

text \<open>
  \<open>ok_then r k\<close> is the source's \<^verbatim>\<open>err := ...; if err != nil { return err }\<close>: the rest
  \<open>k\<close> runs only when the call returned no error.
\<close>

definition ok_then :: "visited \<Rightarrow> (unparser \<Rightarrow> visited) \<Rightarrow> visited" where
  "ok_then r k =
     (case r of
        Panic p \<Rightarrow> Panic p
      | Return (un, Some err) \<Rightarrow> Return (un, Some err)
      | Return (un, None) \<Rightarrow> k un)"

definition WriteString :: "unparser \<Rightarrow> string \<Rightarrow> unparser" where
  "WriteString un s = un\<lparr>str := str un @ s\<rparr>"

text \<open>A Go map read of a missing key gives the zero value.\<close>

definition pos :: "unparser \<Rightarrow> int64 \<Rightarrow> int32" where
  "pos un i = (case positions (info un) i of None \<Rightarrow> 0 | Some p \<Rightarrow> p)"

text \<open>
  The loop of pad: \<^verbatim>\<open>for ; last < next; last++ { un.str.WriteString(" ") }\<close> on int32
  values, the comparison signed.
\<close>

function pad_loop :: "unparser \<Rightarrow> int32 \<Rightarrow> int32 \<Rightarrow> unparser" where
  "pad_loop un lst nxt =
     (if lst <s nxt then pad_loop (WriteString un '' '') (lst + 1) nxt else un)"
  by pat_completeness auto
termination
proof -
  have step: "sint (x + 1) = sint x + 1" if "x <s y" for x y :: int32
  proof -
    from that have lt: "sint x < sint y" by (simp add: word_sless_alt)
    have ub: "sint y < 2 ^ 31" using sint_lt [of y] by simp
    have lb: "- (2 ^ 31) \<le> sint x" using sint_ge [of x] by simp
    have "sint (x + 1) = signed_take_bit 31 (sint x + 1)"
      by (simp add: sint_word_ariths)
    also have "\<dots> = sint x + 1"
      using lt ub lb by (simp add: signed_take_bit_int_eq_self_iff)
    finally show ?thesis .
  qed
  show ?thesis
    apply (relation "measure (\<lambda>(un, lst, nxt). nat (sint nxt - sint lst))")
    subgoal by simp
    subgoal for un lst nxt using step [of lst nxt] by (simp add: word_sless_alt)
    done
qed

text \<open>\<^verbatim>\<open>last := int32(un.str.Len())\<close> keeps the low 32 bits of the byte length.\<close>

definition pad :: "unparser \<Rightarrow> int64 \<Rightarrow> unparser" where
  "pad un i = pad_loop un (word_of_nat (length (str un))) (pos un i)"

subsection \<open>Precedence tests\<close>

definition isLeftRecursive :: "operators \<Rightarrow> string \<Rightarrow> bool" where
  "isLeftRecursive ops op \<longleftrightarrow> op \<noteq> LogicalAnd ops \<and> op \<noteq> LogicalOr ops"

definition isSamePrecedence :: "operators \<Rightarrow> string \<Rightarrow> expr \<Rightarrow> bool" where
  "isSamePrecedence ops op e =
     (case e of
        CallExpr _ _ other _ \<Rightarrow> Precedence ops op = Precedence ops other
      | _ \<Rightarrow> False)"

definition isLowerPrecedence :: "operators \<Rightarrow> string \<Rightarrow> expr \<Rightarrow> bool" where
  "isLowerPrecedence ops op e =
     (case e of
        CallExpr _ _ other _ \<Rightarrow> Precedence ops op < Precedence ops other
      | _ \<Rightarrow> False)"

subsection \<open>Constants and identifiers\<close>

function dec :: "nat \<Rightarrow> string" where
  "dec n = (if n < 10 then [char_of (48 + n)] else dec (n div 10) @ [char_of (48 + n mod 10)])"
  by pat_completeness auto
termination
  by (relation "measure id") auto

definition FormatBool :: "bool \<Rightarrow> string" where
  "FormatBool b = (if b then ''true'' else ''false'')"

definition FormatInt :: "int64 \<Rightarrow> string" where
  "FormatInt i = (if sint i < 0 then ''-'' @ dec (nat (- sint i)) else dec (nat (sint i)))"

definition FormatUint :: "64 word \<Rightarrow> string" where
  "FormatUint u = dec (unat u)"

definition visitComprehension :: "expr \<Rightarrow> unparser \<Rightarrow> visited" where
  "visitComprehension e un = Return (un, Some (Unimplemented e))"

definition visitConst :: "strconv \<Rightarrow> expr \<Rightarrow> unparser \<Rightarrow> visited" where
  "visitConst lib e un =
     (let un = pad un (GetId e) in
      case GetConstExpr e of
        BoolValue b \<Rightarrow> Return (WriteString un (FormatBool b), None)
      | BytesValue b \<Rightarrow>
          Return (WriteString (WriteString (WriteString un [CHR ''b'', CHR 0x22]) b) [CHR 0x22],
                  None)
      | DoubleValue d \<Rightarrow> Return (WriteString un (FormatFloat lib d), None)
      | Int64Value i \<Rightarrow> Return (WriteString un (FormatInt i), None)
      | NullValue \<Rightarrow> Return (WriteString un ''null'', None)
      | StringValue s \<Rightarrow> Return (WriteString un (Quote lib s), None)
      | Uint64Value u \<Rightarrow> Return (WriteString (WriteString un (FormatUint u)) ''u'', None)
      | OtherConstant \<Rightarrow> Return (un, Some (Unimplemented e)))"

definition visitIdent :: "expr \<Rightarrow> unparser \<Rightarrow> visited" where
  "visitIdent e un = Return (WriteString (pad un (GetId e)) (GetName e), None)"

subsection \<open>The visitor\<close>

text \<open>The case list of the binary operators in visitCall, in the source's order.\<close>

definition binary_operators :: "operators \<Rightarrow> string list" where
  "binary_operators ops =
     [Add ops, Divide ops, Equals ops, Greater ops, GreaterEquals ops, In ops, Less ops,
      LessEquals ops, LogicalAnd ops, LogicalOr ops, Modulo ops, Multiply ops, NotEquals ops,
      OldIn ops, Subtract ops]"

text \<open>
  The visit methods are mutually recursive. An index into the argument slice that is out
  of range panics where the source evaluates it: \<^verbatim>\<open>args[0]\<close> and \<^verbatim>\<open>args[1]\<close> at the head
  of visitCallBinary, each \<^verbatim>\<open>args[k]\<close> of visitCallConditional and visitCallIndex when
  its turn comes. A visit of a nil pointer panics on the read of its kind. The range
  loops write their separator when \<^verbatim>\<open>i < len - 1\<close>, that is when elements remain.
\<close>

function visit :: "operators \<Rightarrow> strconv \<Rightarrow> expr \<Rightarrow> unparser \<Rightarrow> visited"
  and visitCall :: "operators \<Rightarrow> strconv \<Rightarrow> expr \<Rightarrow> unparser \<Rightarrow> visited"
  and visitCallBinary :: "operators \<Rightarrow> strconv \<Rightarrow> expr \<Rightarrow> unparser \<Rightarrow> visited"
  and visitCallConditional :: "operators \<Rightarrow> strconv \<Rightarrow> expr \<Rightarrow> unparser \<Rightarrow> visited"
  and visitCallFunc :: "operators \<Rightarrow> strconv \<Rightarrow> expr \<Rightarrow> unparser \<Rightarrow> visited"
  and visitCallFunc_args :: "operators \<Rightarrow> strconv \<Rightarrow> expr list \<Rightarrow> unparser \<Rightarrow> visited"
  and visitCallIndex :: "operators \<Rightarrow> strconv \<Rightarrow> expr \<Rightarrow> unparser \<Rightarrow> visited"
  and visitCallUnary :: "operators \<Rightarrow> strconv \<Rightarrow> expr \<Rightarrow> unparser \<Rightarrow> visited"
  and visitList :: "operators \<Rightarrow> strconv \<Rightarrow> expr \<Rightarrow> unparser \<Rightarrow> visited"
  and visitList_elems :: "operators \<Rightarrow> strconv \<Rightarrow> expr list \<Rightarrow> unparser \<Rightarrow> visited"
  and visitSelect :: "operators \<Rightarrow> strconv \<Rightarrow> expr \<Rightarrow> unparser \<Rightarrow> visited"
  and visitStruct :: "operators \<Rightarrow> strconv \<Rightarrow> expr \<Rightarrow> unparser \<Rightarrow> visited"
  and visitStructMsg :: "operators \<Rightarrow> strconv \<Rightarrow> expr \<Rightarrow> unparser \<Rightarrow> visited"
  and visitStructMsg_entries :: "operators \<Rightarrow> strconv \<Rightarrow> entry list \<Rightarrow> unparser \<Rightarrow> visited"
  and visitStructMap :: "operators \<Rightarrow> strconv \<Rightarrow> expr \<Rightarrow> unparser \<Rightarrow> visited"
  and visitStructMap_entries :: "operators \<Rightarrow> strconv \<Rightarrow> entry list \<Rightarrow> unparser \<Rightarrow> visited"
  and visitMaybeNested :: "operators \<Rightarrow> strconv \<Rightarrow> expr \<Rightarrow> bool \<Rightarrow> unparser \<Rightarrow> visited"
where
  "visit ops lib e un =
     (case e of
        CallExpr _ _ _ _ \<Rightarrow> visitCall ops lib e un
      | ComprehensionExpr _ \<Rightarrow> visitComprehension e un
      | ConstExpr _ _ \<Rightarrow> visitConst lib e un
      | IdentExpr _ _ \<Rightarrow> visitIdent e un
      | ListExpr _ _ \<Rightarrow> visitList ops lib e un
      | SelectExpr _ _ _ _ \<Rightarrow> visitSelect ops lib e un
      | StructExpr _ _ _ \<Rightarrow> visitStruct ops lib e un
      | NoExprKind _ \<Rightarrow> Return (un, Some (UnsupportedExpr e)))"
| "visitCall ops lib e un =
     (let fn = GetFunction e in
      if fn = Conditional ops then visitCallConditional ops lib e un
      else if fn = Index ops then visitCallIndex ops lib e un
      else if fn = LogicalNot ops \<or> fn = Negate ops then visitCallUnary ops lib e un
      else if fn \<in> set (binary_operators ops) then visitCallBinary ops lib e un
      else visitCallFunc ops lib e un)"
| "visitCallBinary ops lib e un =
     (let fn = GetFunction e; args = GetArgs e in
      case args of
        [] \<Rightarrow> Panic IndexOutOfRange
      | [lhs] \<Rightarrow> Panic IndexOutOfRange
      | lhs # rhs # _ \<Rightarrow>
          (let lhsParen = isLowerPrecedence ops fn lhs;
               rhsParen = isLowerPrecedence ops fn rhs;
               rhsParen = (if \<not> rhsParen \<and> isLeftRecursive ops fn
                           then isSamePrecedence ops fn rhs else rhsParen)
           in ok_then (visitMaybeNested ops lib lhs lhsParen un) (\<lambda>un.
                case FindReverse ops fn of
                  None \<Rightarrow> Return (un, Some (CannotUnmangle fn))
                | Some unmangled \<Rightarrow>
                    (let un = WriteString un '' '';
                         un = pad un (GetId e);
                         un = WriteString un unmangled;
                         un = WriteString un '' ''
                     in visitMaybeNested ops lib rhs rhsParen un))))"
| "visitCallConditional ops lib e un =
     (let args = GetArgs e in
      case args of
        [] \<Rightarrow> Panic IndexOutOfRange
      | a0 # rest0 \<Rightarrow>
          ok_then (visitMaybeNested ops lib a0 (isSamePrecedence ops (Conditional ops) a0) un)
            (\<lambda>un.
              let un = pad un (GetId e);
                  un = WriteString un ''? ''
              in case rest0 of
                   [] \<Rightarrow> Panic IndexOutOfRange
                 | a1 # rest1 \<Rightarrow>
                     ok_then
                       (visitMaybeNested ops lib a1 (isSamePrecedence ops (Conditional ops) a1) un)
                       (\<lambda>un.
                         let un = WriteString un '' : ''
                         in case rest1 of
                              [] \<Rightarrow> Panic IndexOutOfRange
                            | a2 # _ \<Rightarrow>
                                visitMaybeNested ops lib a2
                                  (isSamePrecedence ops (Conditional ops) a2) un)))"
| "visitCallFunc ops lib e un =
     (let fn = GetFunction e; args = GetArgs e in
      ok_then (case GetTarget e of
                 None \<Rightarrow> Return (un, None)
               | Some target \<Rightarrow>
                   ok_then (visit ops lib target un) (\<lambda>un. Return (WriteString un ''.'', None)))
        (\<lambda>un.
          let un = WriteString un fn;
              un = pad un (GetId e);
              un = WriteString un ''(''
          in ok_then (visitCallFunc_args ops lib args un) (\<lambda>un.
               Return (WriteString un '')'', None))))"
| "visitCallFunc_args ops lib args un =
     (case args of
        [] \<Rightarrow> Return (un, None)
      | arg # rest \<Rightarrow>
          ok_then (visit ops lib arg un) (\<lambda>un.
            visitCallFunc_args ops lib rest (if rest \<noteq> [] then WriteString un '','' else un)))"
| "visitCallIndex ops lib e un =
     (let args = GetArgs e in
      case args of
        [] \<Rightarrow> Panic IndexOutOfRange
      | a0 # rest0 \<Rightarrow>
          ok_then (visit ops lib a0 un) (\<lambda>un.
            let un = pad un (GetId e);
                un = WriteString un ''[''
            in case rest0 of
                 [] \<Rightarrow> Panic IndexOutOfRange
               | a1 # _ \<Rightarrow>
                   ok_then (visit ops lib a1 un) (\<lambda>un.
                     Return (WriteString un '']'', None))))"
| "visitCallUnary ops lib e un =
     (let un = pad un (GetId e);
          fn = GetFunction e;
          args = GetArgs e
      in case FindReverse ops fn of
           None \<Rightarrow> Return (un, Some (CannotUnmangle fn))
         | Some unmangled \<Rightarrow>
             (let un = WriteString un unmangled
              in case args of
                   [] \<Rightarrow> Panic IndexOutOfRange
                 | a0 # _ \<Rightarrow> visit ops lib a0 un))"
| "visitList ops lib e un =
     (let elems = GetElements e;
          un = pad un (GetId e);
          un = WriteString un ''[''
      in ok_then (visitList_elems ops lib elems un) (\<lambda>un.
           Return (WriteString un '']'', None)))"
| "visitList_elems ops lib elems un =
     (case elems of
        [] \<Rightarrow> Return (un, None)
      | elem # rest \<Rightarrow>
          ok_then (visit ops lib elem un) (\<lambda>un.
            visitList_elems ops lib rest (if rest \<noteq> [] then WriteString un '','' else un)))"
| "visitSelect ops lib e un =
     (let un = (if GetTestOnly e then WriteString un ''has('' else un)
      in ok_then (case GetOperand e of
                    None \<Rightarrow> Panic NilDereference
                  | Some operand \<Rightarrow> visit ops lib operand un) (\<lambda>un.
           let un = pad un (GetId e);
               un = WriteString un ''.'';
               un = WriteString un (GetField e);
               un = (if GetTestOnly e then WriteString un '')'' else un)
           in Return (un, None)))"
| "visitStruct ops lib e un =
     (if GetMessageName e \<noteq> [] then visitStructMsg ops lib e un
      else visitStructMap ops lib e un)"
| "visitStructMsg ops lib e un =
     (let entries = GetEntries e;
          un = WriteString un (GetMessageName e);
          un = pad un (GetId e);
          un = WriteString un ''{''
      in ok_then (visitStructMsg_entries ops lib entries un) (\<lambda>un.
           Return (WriteString un ''}'', None)))"
| "visitStructMsg_entries ops lib entries un =
     (case entries of
        [] \<Rightarrow> Return (un, None)
      | ent # rest \<Rightarrow>
          (let un = WriteString un (GetFieldKey ent);
               un = pad un (entry_GetId ent);
               un = WriteString un '': ''
           in ok_then (case GetValue ent of
                         None \<Rightarrow> Panic NilDereference
                       | Some v \<Rightarrow> visit ops lib v un) (\<lambda>un.
                visitStructMsg_entries ops lib rest
                  (if rest \<noteq> [] then WriteString un '', '' else un))))"
| "visitStructMap ops lib e un =
     (let entries = GetEntries e;
          un = pad un (GetId e);
          un = WriteString un ''{''
      in ok_then (visitStructMap_entries ops lib entries un) (\<lambda>un.
           Return (WriteString un ''}'', None)))"
| "visitStructMap_entries ops lib entries un =
     (case entries of
        [] \<Rightarrow> Return (un, None)
      | ent # rest \<Rightarrow>
          ok_then (case GetMapKey ent of
                     None \<Rightarrow> Panic NilDereference
                   | Some k \<Rightarrow> visit ops lib k un) (\<lambda>un.
            let un = pad un (entry_GetId ent);
                un = WriteString un '': ''
            in ok_then (case GetValue ent of
                          None \<Rightarrow> Panic NilDereference
                        | Some v \<Rightarrow> visit ops lib v un) (\<lambda>un.
                 visitStructMap_entries ops lib rest
                   (if rest \<noteq> [] then WriteString un '', '' else un))))"
| "visitMaybeNested ops lib e nested un =
     (let un = (if nested then WriteString un ''('' else un)
      in ok_then (visit ops lib e un) (\<lambda>un.
           Return (if nested then WriteString un '')'' else un, None)))"
  by pat_completeness auto
termination
proof -
  have args: "size a + size_list size as + 2 \<le> size e" if "GetArgs e = a # as" for e a as
    using that by (cases e) auto
  have args_all: "size_list size (GetArgs e) \<le> size e" for e
    by (cases e) auto
  have target: "size t + 2 \<le> size e" if "GetTarget e = Some t" for e t
    using that by (cases e) auto
  have elems: "size_list size (GetElements e) \<le> size e" for e
    by (cases e) auto
  have operand: "size x + 2 \<le> size e" if "GetOperand e = Some x" for e x
    using that by (cases e) auto
  have entries: "size_list size (GetEntries e) \<le> size e" for e
    by (cases e) auto
  have val: "size v < size ent" if "GetValue ent = Some v" for ent v
    using that by (cases ent) auto
  have key: "size k < size ent" if "GetMapKey ent = Some k" for ent k
    using that by (cases ent rule: GetMapKey.cases) auto
  show ?thesis
    apply (relation "measure
      (case_sum
        (case_sum
          (case_sum
            (case_sum (\<lambda>(ops, lib, e, un). 5 * size e + 3) (\<lambda>(ops, lib, e, un). 5 * size e + 2))
            (case_sum (\<lambda>(ops, lib, e, un). 5 * size e + 1) (\<lambda>(ops, lib, e, un). 5 * size e + 1)))
          (case_sum
            (case_sum (\<lambda>(ops, lib, e, un). 5 * size e + 1)
                      (\<lambda>(ops, lib, es, un). 5 * size_list size es))
            (case_sum (\<lambda>(ops, lib, e, un). 5 * size e + 1) (\<lambda>(ops, lib, e, un). 5 * size e + 1))))
        (case_sum
          (case_sum
            (case_sum (\<lambda>(ops, lib, e, un). 5 * size e + 2)
                      (\<lambda>(ops, lib, es, un). 5 * size_list size es))
            (case_sum (\<lambda>(ops, lib, e, un). 5 * size e + 2) (\<lambda>(ops, lib, e, un). 5 * size e + 2)))
          (case_sum
            (case_sum (\<lambda>(ops, lib, e, un). 5 * size e + 1)
                      (\<lambda>(ops, lib, es, un). 5 * size_list size es))
            (case_sum (\<lambda>(ops, lib, e, un). 5 * size e + 1)
               (case_sum (\<lambda>(ops, lib, es, un). 5 * size_list size es)
                         (\<lambda>(ops, lib, e, nested, un). 5 * size e + 4))))))")
    subgoal by simp
    subgoal by simp
    subgoal by simp
    subgoal by simp
    subgoal by simp
    subgoal by simp
    subgoal by simp
    subgoal by simp
    subgoal by simp
    subgoal by simp
    subgoal for ops lib e un x xa x21 x22 using args [of e x21 x22] by simp
    subgoal for ops lib e un x xa x21 x22 x21a x22a using args [of e x21 x22] by simp
    subgoal for ops lib e un x x21 x22 using args [of e x21 x22] by simp
    subgoal for ops lib e un x x21 x22 xa xb xc x21a x22a using args [of e x21 x22] by simp
    subgoal for ops lib e un x x21 x22 xa xb xc x21a x22a xd xe x21b x22b
      using args [of e x21 x22] by simp
    subgoal for ops lib e un x xa x2 using target [of e x2] by simp
    subgoal for ops lib e un using args_all [of e] by simp
    subgoal by simp
    subgoal by simp
    subgoal for ops lib e un x x21 x22 using args [of e x21 x22] by simp
    subgoal for ops lib e un x x21 x22 xa xb xc x21a x22a using args [of e x21 x22] by simp
    subgoal for ops lib e un x xa xb x2 xaa x21 x22 using args [of e x21 x22] by simp
    subgoal for ops lib e un using elems [of e] by simp
    subgoal by simp
    subgoal by simp
    subgoal for ops lib e un x x2 using operand [of e x2] by simp
    subgoal by simp
    subgoal by simp
    subgoal for ops lib e un using entries [of e] by simp
    subgoal for ops lib entries un x21 x22 x xa xb x2 using val [of x21 x2] by simp
    subgoal by simp
    subgoal for ops lib e un using entries [of e] by simp
    subgoal for ops lib entries un x21 x22 x2 using key [of x21 x2] by simp
    subgoal for ops lib entries un x21 x22 x xa xb x2 using val [of x21 x2] by simp
    subgoal by simp
    subgoal by simp
    done
qed

subsection \<open>Go's conversions between strings and rune slices\<close>

text \<open>
  A Go string is a byte sequence; \<^verbatim>\<open>[]rune(s)\<close> decodes it as UTF-8, each byte that starts
  no valid encoding giving U+FFFD, and \<^verbatim>\<open>string(txt)\<close> encodes the runes again, a value
  that is no code point as U+FFFD.
\<close>

definition byte :: "char \<Rightarrow> nat" where
  "byte c = of_char c"

definition RuneError :: rune where
  "RuneError = 0xFFFD"

definition utf8_cont :: "char \<Rightarrow> bool" where
  "utf8_cont c \<longleftrightarrow> 0x80 \<le> byte c \<and> byte c \<le> 0xBF"

definition utf8_accept :: "char \<Rightarrow> char \<Rightarrow> bool" where
  "utf8_accept c0 c1 \<longleftrightarrow>
     (let b0 = byte c0; b1 = byte c1 in
      if b0 = 0xE0 then 0xA0 \<le> b1 \<and> b1 \<le> 0xBF
      else if b0 = 0xED then 0x80 \<le> b1 \<and> b1 \<le> 0x9F
      else if b0 = 0xF0 then 0x90 \<le> b1 \<and> b1 \<le> 0xBF
      else if b0 = 0xF4 then 0x80 \<le> b1 \<and> b1 \<le> 0x8F
      else 0x80 \<le> b1 \<and> b1 \<le> 0xBF)"

fun runes_of_string :: "string \<Rightarrow> rune list" where
  "runes_of_string [] = []"
| "runes_of_string (c0 # s) =
     (let b0 = byte c0 in
      if b0 < 0x80 then word_of_nat b0 # runes_of_string s
      else if 0xC2 \<le> b0 \<and> b0 \<le> 0xDF then
        (case s of
           c1 # s1 \<Rightarrow>
             if utf8_accept c0 c1
             then word_of_nat ((b0 - 0xC0) * 64 + (byte c1 - 0x80)) # runes_of_string s1
             else RuneError # runes_of_string s
         | _ \<Rightarrow> RuneError # runes_of_string s)
      else if 0xE0 \<le> b0 \<and> b0 \<le> 0xEF then
        (case s of
           c1 # c2 # s2 \<Rightarrow>
             if utf8_accept c0 c1 \<and> utf8_cont c2
             then word_of_nat ((b0 - 0xE0) * 4096 + (byte c1 - 0x80) * 64 + (byte c2 - 0x80))
                  # runes_of_string s2
             else RuneError # runes_of_string s
         | _ \<Rightarrow> RuneError # runes_of_string s)
      else if 0xF0 \<le> b0 \<and> b0 \<le> 0xF4 then
        (case s of
           c1 # c2 # c3 # s3 \<Rightarrow>
             if utf8_accept c0 c1 \<and> utf8_cont c2 \<and> utf8_cont c3
             then word_of_nat ((b0 - 0xF0) * 262144 + (byte c1 - 0x80) * 4096
                               + (byte c2 - 0x80) * 64 + (byte c3 - 0x80))
                  # runes_of_string s3
             else RuneError # runes_of_string s
         | _ \<Rightarrow> RuneError # runes_of_string s)
      else RuneError # runes_of_string s)"

definition utf8_encode :: "nat \<Rightarrow> string" where
  "utf8_encode n =
     (if n < 0x80 then [char_of n]
      else if n < 0x800 then [char_of (0xC0 + n div 64), char_of (0x80 + n mod 64)]
      else if n < 0x10000
        then [char_of (0xE0 + n div 4096), char_of (0x80 + (n div 64) mod 64),
              char_of (0x80 + n mod 64)]
      else [char_of (0xF0 + n div 262144), char_of (0x80 + (n div 4096) mod 64),
            char_of (0x80 + (n div 64) mod 64), char_of (0x80 + n mod 64)])"

definition encode_rune :: "rune \<Rightarrow> string" where
  "encode_rune r =
     (let v = sint r in
      if v < 0 \<or> 0x10FFFF < v \<or> (0xD800 \<le> v \<and> v \<le> 0xDFFF) then utf8_encode 0xFFFD
      else utf8_encode (nat v))"

definition string_of_runes :: "rune list \<Rightarrow> string" where
  "string_of_runes rs = concat (map encode_rune rs)"

subsection \<open>Unparse\<close>

text \<open>
  The inner loop of Unparse, \<^verbatim>\<open>for ; br-1 < sz; br++\<close>, reads \<^verbatim>\<open>txt[br-1]\<close>: the read panics
  when the index is negative or not below the length of the slice.
\<close>

function Unparse_scan :: "rune list \<Rightarrow> int32 \<Rightarrow> int32 \<Rightarrow> rune list outcome" where
  "Unparse_scan txt sz br =
     (if br - 1 <s sz then
        (if sint (br - 1) < 0 \<or> int (length txt) \<le> sint (br - 1) then Panic IndexOutOfRange
         else if txt ! nat (sint (br - 1)) = 0x20
           then Return (txt[nat (sint (br - 1)) := 0x0A])
         else Unparse_scan txt sz (br + 1))
      else Return txt)"
  by pat_completeness auto
termination
proof -
  have step: "sint br = sint (br - 1) + 1" if "br - 1 <s sz" for br sz :: int32
  proof -
    from that have lt: "sint (br - 1) < sint sz" by (simp add: word_sless_alt)
    have ub: "sint sz < 2 ^ 31" using sint_lt [of sz] by simp
    have lb: "- (2 ^ 31) \<le> sint (br - 1)" using sint_ge [of "br - 1"] by simp
    have "sint br = sint ((br - 1) + 1)" by (simp only: diff_add_cancel)
    also have "\<dots> = signed_take_bit 31 (sint (br - 1) + 1)"
      by (simp only: sint_word_ariths) simp
    also have "\<dots> = sint (br - 1) + 1"
      using lt ub lb by (simp add: signed_take_bit_int_eq_self_iff)
    finally show ?thesis .
  qed
  show ?thesis
    apply (relation "measure (\<lambda>(t, sz, br). nat (sint sz - sint (br - 1)))")
    subgoal by simp
    subgoal for t s b using step [of b s] by (simp add: word_sless_alt)
    done
qed

fun Unparse_breaks :: "rune list \<Rightarrow> int32 \<Rightarrow> int32 list \<Rightarrow> rune list outcome" where
  "Unparse_breaks txt sz [] = Return txt"
| "Unparse_breaks txt sz (br # breaks) =
     (case Unparse_scan txt sz br of
        Panic p \<Rightarrow> Panic p
      | Return txt \<Rightarrow> Unparse_breaks txt sz breaks)"

definition new_unparser :: "source_info \<Rightarrow> unparser" where
  "new_unparser sinfo = \<lparr>info = sinfo, str = [], offset = 0\<rparr>"

definition Unparse ::
  "operators \<Rightarrow> strconv \<Rightarrow> expr \<Rightarrow> source_info \<Rightarrow> (string \<times> error option) outcome" where
  "Unparse ops lib e sinfo =
     (case visit ops lib e (new_unparser sinfo) of
        Panic p \<Rightarrow> Panic p
      | Return (un, Some err) \<Rightarrow> Return ([], Some err)
      | Return (un, None) \<Rightarrow>
          (let breaks = line_offsets sinfo in
           if length breaks \<le> 1 then Return (str un, None)
           else
             let txt = runes_of_string (str un);
                 sz = word_of_nat (length txt)
             in case Unparse_breaks txt sz breaks of
                  Panic p \<Rightarrow> Panic p
                | Return txt \<Rightarrow> Return (string_of_runes txt, None)))"

subsection \<open>The parenthesization rule in the words of the specification\<close>

text \<open>
  \<open>in_parens b v\<close> runs the visit \<open>v\<close> between an opening and a closing parenthesis when
  \<open>b\<close> holds, and runs it bare otherwise.
\<close>

definition in_parens :: "bool \<Rightarrow> (unparser \<Rightarrow> visited) \<Rightarrow> unparser \<Rightarrow> visited" where
  "in_parens b v un =
     (if b then ok_then (v (WriteString un ''('')) (\<lambda>un. Return (WriteString un '')'', None))
      else v un)"

definition is_call :: "expr \<Rightarrow> bool" where
  "is_call e = (case e of CallExpr _ _ _ _ \<Rightarrow> True | _ \<Rightarrow> False)"

text \<open>An operand that is a call whose function has a strictly greater rank than \<open>op\<close>.\<close>

definition call_of_greater_rank :: "operators \<Rightarrow> string \<Rightarrow> expr \<Rightarrow> bool" where
  "call_of_greater_rank ops op e \<longleftrightarrow> is_call e \<and> Precedence ops op < Precedence ops (GetFunction e)"

text \<open>An operand that is a call whose function has the rank of \<open>op\<close>.\<close>

definition call_of_equal_rank :: "operators \<Rightarrow> string \<Rightarrow> expr \<Rightarrow> bool" where
  "call_of_equal_rank ops op e \<longleftrightarrow> is_call e \<and> Precedence ops (GetFunction e) = Precedence ops op"

definition is_conditional_call :: "operators \<Rightarrow> expr \<Rightarrow> bool" where
  "is_conditional_call ops e \<longleftrightarrow> is_call e \<and> GetFunction e = Conditional ops"

text \<open>
  The function names that visitCall sends to visitCallBinary: the names of its binary case
  list that no earlier case of the switch takes. (Go rejects a switch with duplicate
  constant cases, so for the real constants the second condition always holds.)
\<close>

definition binary_operator :: "operators \<Rightarrow> string \<Rightarrow> bool" where
  "binary_operator ops fn \<longleftrightarrow>
     fn \<in> set (binary_operators ops) \<and> fn \<noteq> Conditional ops \<and> fn \<noteq> Index ops
     \<and> fn \<noteq> LogicalNot ops \<and> fn \<noteq> Negate ops"

text \<open>
  The names with an entry in the precedence table: the operators that visitCall names.
  An operator call is a call node whose function is one of them.
\<close>

definition operator_names :: "operators \<Rightarrow> string list" where
  "operator_names ops =
     [Conditional ops, Index ops, LogicalNot ops, Negate ops] @ binary_operators ops"

definition operator_call :: "operators \<Rightarrow> expr \<Rightarrow> bool" where
  "operator_call ops e \<longleftrightarrow> is_call e \<and> GetFunction e \<in> set (operator_names ops)"

text \<open>
  The precedence rank of the specification, in which lower binds looser: the number that
  \<open>Precedence\<close> returns grows as an operator binds looser, so the rank counts it down
  from the number of the conditional, the loosest operator, which gets rank 1.
\<close>

definition precedence_rank :: "operators \<Rightarrow> string \<Rightarrow> int" where
  "precedence_rank ops op = Precedence ops (Conditional ops) + 1 - Precedence ops op"

text \<open>
  An operand that is an operator call whose operator has a strictly lower precedence
  than \<open>op\<close>, and one whose operator has exactly the precedence of \<open>op\<close>.
\<close>

definition lower_precedence :: "operators \<Rightarrow> string \<Rightarrow> expr \<Rightarrow> bool" where
  "lower_precedence ops op e \<longleftrightarrow>
     operator_call ops e \<and> precedence_rank ops (GetFunction e) < precedence_rank ops op"

definition equal_precedence :: "operators \<Rightarrow> string \<Rightarrow> expr \<Rightarrow> bool" where
  "equal_precedence ops op e \<longleftrightarrow>
     operator_call ops e \<and> precedence_rank ops (GetFunction e) = precedence_rank ops op"

text \<open>
  What the printer relies on in the precedence lookup: an operator name has a positive
  number, and a name the lookup does not find has the number 0.
\<close>

definition precedence_table :: "operators \<Rightarrow> bool" where
  "precedence_table ops \<longleftrightarrow>
     (\<forall>g \<in> set (operator_names ops). 0 < Precedence ops g)
     \<and> (\<forall>g. g \<notin> set (operator_names ops) \<longrightarrow> Precedence ops g = 0)"

text \<open>
  The line-break pass in the words of the specification: the first space at or after
  index \<open>k\<close> becomes a line break; with no space from there to the end the text is kept.
\<close>

definition break_at :: "rune list \<Rightarrow> nat \<Rightarrow> rune list" where
  "break_at txt k =
     (let j = k + length (takeWhile (\<lambda>c. c \<noteq> 0x20) (drop k txt))
      in if j < length txt then txt[j := 0x0A] else txt)"

subsection \<open>The operator table for concrete runs\<close>

text \<open>
  The operator table with which the printer is run on concrete trees: every operator that
  visitCall names has a name of its own, a display symbol and a precedence number. A
  smaller number binds tighter (indexing 1, the conditional 8), and a name outside the
  table has the number 0.
\<close>

definition cel_operators :: operators where
  "cel_operators =
     \<lparr>Conditional = ''_?_:_'', Index = ''_[_]'', LogicalNot = ''!_'', Negate = ''-_'',
      Add = ''_+_'', Divide = ''_/_'', Equals = ''_==_'', Greater = ''_>_'',
      GreaterEquals = ''_>=_'', In = ''@in'', Less = ''_<_'', LessEquals = ''_<=_'',
      LogicalAnd = ''_&&_'', LogicalOr = ''_||_'', Modulo = ''_%_'', Multiply = ''_*_'',
      NotEquals = ''_!=_'', OldIn = ''_in_'', Subtract = ''_-_'',
      FindReverse = map_of
        [(''_+_'', ''+''), (''_/_'', ''/''), (''_==_'', ''==''), (''_>_'', ''>''),
         (''_>=_'', ''>=''), (''@in'', ''in''), (''_<_'', ''<''), (''_<=_'', ''<=''),
         (''_&&_'', ''&&''), (''!_'', ''!''), (''_||_'', ''||''), (''_%_'', ''%''),
         (''_*_'', ''*''), (''-_'', ''-''), (''_!=_'', ''!=''), (''_in_'', ''in''),
         (''_-_'', ''-'')],
      Precedence = (\<lambda>op. case map_of
        [(''_?_:_'', 8), (''_||_'', 7), (''_&&_'', 6), (''_==_'', 5), (''_>_'', 5),
         (''_>=_'', 5), (''@in'', 5), (''_<_'', 5), (''_<=_'', 5), (''_!=_'', 5),
         (''_in_'', 5), (''_+_'', 4), (''_-_'', 4), (''_/_'', 3), (''_%_'', 3),
         (''_*_'', 3), (''!_'', 2), (''-_'', 2), (''_[_]'', 1)] op of
          None \<Rightarrow> 0 | Some p \<Rightarrow> p)\<rparr>"

text \<open>
  The concrete runs below render no string and no floating-point constant, so the two
  library parameters are never called there; this instance fills them in.
\<close>

definition plain_strconv :: strconv where
  "plain_strconv = \<lparr>FormatFloat = (\<lambda>d. []), Quote = (\<lambda>s. s)\<rparr>"

definition no_info :: source_info where
  "no_info = \<lparr>positions = Map.empty, line_offsets = []\<rparr>"


subsection \<open>Which subexpressions a run of the printer visits\<close>

text \<open>
  The function names that visitCall sends to visitCallUnary and to visitCallFunc.
\<close>

definition unary_operator :: "operators \<Rightarrow> string \<Rightarrow> bool" where
  "unary_operator ops fn \<longleftrightarrow>
     fn \<noteq> Conditional ops \<and> fn \<noteq> Index ops \<and> (fn = LogicalNot ops \<or> fn = Negate ops)"

definition plain_function :: "operators \<Rightarrow> string \<Rightarrow> bool" where
  "plain_function ops fn \<longleftrightarrow>
     fn \<noteq> Conditional ops \<and> fn \<noteq> Index ops \<and> fn \<noteq> LogicalNot ops \<and> fn \<noteq> Negate ops
     \<and> fn \<notin> set (binary_operators ops)"

text \<open>
  The state in which visitMaybeNested visits its expression.
\<close>

definition open_paren :: "bool \<Rightarrow> unparser \<Rightarrow> unparser" where
  "open_paren nested un = (if nested then WriteString un ''('' else un)"

text \<open>
  \<open>range_calls ops lib xs un c v\<close>: the range loop of visitCallFunc or of visitList,
  started on \<open>xs\<close> in state \<open>un\<close>, calls visit on \<open>c\<close> in state \<open>v\<close>. An
  element is reached when every element before it was visited without error.
\<close>

inductive range_calls ::
  "operators \<Rightarrow> strconv \<Rightarrow> expr list \<Rightarrow> unparser \<Rightarrow> expr \<Rightarrow> unparser \<Rightarrow> bool"
  for ops lib where
  range_head: "range_calls ops lib (x # xs) un x un"
| range_tail:
    "visit ops lib x un = Return (u, None) \<Longrightarrow>
     range_calls ops lib xs (if xs \<noteq> [] then WriteString u '','' else u) c v \<Longrightarrow>
     range_calls ops lib (x # xs) un c v"

text \<open>The same for the entry loops of visitStructMsg and visitStructMap.\<close>

inductive msg_calls ::
  "operators \<Rightarrow> strconv \<Rightarrow> entry list \<Rightarrow> unparser \<Rightarrow> expr \<Rightarrow> unparser \<Rightarrow> bool"
  for ops lib where
  msg_value:
    "GetValue ent = Some v \<Longrightarrow>
     msg_calls ops lib (ent # rest) un v
       (WriteString (pad (WriteString un (GetFieldKey ent)) (entry_GetId ent)) '': '')"
| msg_tail:
    "GetValue ent = Some v \<Longrightarrow>
     visit ops lib v (WriteString (pad (WriteString un (GetFieldKey ent)) (entry_GetId ent)) '': '')
       = Return (u, None) \<Longrightarrow>
     msg_calls ops lib rest (if rest \<noteq> [] then WriteString u '', '' else u) c w \<Longrightarrow>
     msg_calls ops lib (ent # rest) un c w"

inductive map_calls ::
  "operators \<Rightarrow> strconv \<Rightarrow> entry list \<Rightarrow> unparser \<Rightarrow> expr \<Rightarrow> unparser \<Rightarrow> bool"
  for ops lib where
  map_key:
    "GetMapKey ent = Some k \<Longrightarrow> map_calls ops lib (ent # rest) un k un"
| map_value:
    "GetMapKey ent = Some k \<Longrightarrow> visit ops lib k un = Return (u, None) \<Longrightarrow>
     GetValue ent = Some v \<Longrightarrow>
     map_calls ops lib (ent # rest) un v (WriteString (pad u (entry_GetId ent)) '': '')"
| map_tail:
    "GetMapKey ent = Some k \<Longrightarrow> visit ops lib k un = Return (u, None) \<Longrightarrow>
     GetValue ent = Some v \<Longrightarrow>
     visit ops lib v (WriteString (pad u (entry_GetId ent)) '': '') = Return (u', None) \<Longrightarrow>
     map_calls ops lib rest (if rest \<noteq> [] then WriteString u' '', '' else u') c w \<Longrightarrow>
     map_calls ops lib (ent # rest) un c w"

text \<open>
  \<open>calls ops lib e un c v\<close>: visit, run on \<open>e\<close> in state \<open>un\<close>, calls visit on the
  child \<open>c\<close> in state \<open>v\<close>. There is one rule for each call of \<^verbatim>\<open>un.visit\<close> and of
  \<^verbatim>\<open>un.visitMaybeNested\<close> in the source; its premises say that the visits the source
  makes before it returned no error.
\<close>

inductive calls ::
  "operators \<Rightarrow> strconv \<Rightarrow> expr \<Rightarrow> unparser \<Rightarrow> expr \<Rightarrow> unparser \<Rightarrow> bool"
  for ops lib where
  binary_lhs:
    "binary_operator ops fn \<Longrightarrow>
     calls ops lib (CallExpr i t fn (lhs # rhs # rest)) un
       lhs (open_paren (isLowerPrecedence ops fn lhs) un)"
| binary_rhs:
    "binary_operator ops fn \<Longrightarrow>
     visitMaybeNested ops lib lhs (isLowerPrecedence ops fn lhs) un = Return (u, None) \<Longrightarrow>
     FindReverse ops fn = Some unmangled \<Longrightarrow>
     calls ops lib (CallExpr i t fn (lhs # rhs # rest)) un
       rhs (open_paren (isLowerPrecedence ops fn rhs
                        \<or> isLeftRecursive ops fn \<and> isSamePrecedence ops fn rhs)
              (WriteString (WriteString (pad (WriteString u '' '') i) unmangled) '' ''))"
| conditional_cond:
    "calls ops lib (CallExpr i t (Conditional ops) (a0 # rest)) un
       a0 (open_paren (isSamePrecedence ops (Conditional ops) a0) un)"
| conditional_then:
    "visitMaybeNested ops lib a0 (isSamePrecedence ops (Conditional ops) a0) un
       = Return (u, None) \<Longrightarrow>
     calls ops lib (CallExpr i t (Conditional ops) (a0 # a1 # rest)) un
       a1 (open_paren (isSamePrecedence ops (Conditional ops) a1) (WriteString (pad u i) ''? ''))"
| conditional_else:
    "visitMaybeNested ops lib a0 (isSamePrecedence ops (Conditional ops) a0) un
       = Return (u, None) \<Longrightarrow>
     visitMaybeNested ops lib a1 (isSamePrecedence ops (Conditional ops) a1)
       (WriteString (pad u i) ''? '') = Return (u', None) \<Longrightarrow>
     calls ops lib (CallExpr i t (Conditional ops) (a0 # a1 # a2 # rest)) un
       a2 (open_paren (isSamePrecedence ops (Conditional ops) a2) (WriteString u' '' : ''))"
| index_operand:
    "Index ops \<noteq> Conditional ops \<Longrightarrow>
     calls ops lib (CallExpr i t (Index ops) (a0 # rest)) un a0 un"
| index_key:
    "Index ops \<noteq> Conditional ops \<Longrightarrow> visit ops lib a0 un = Return (u, None) \<Longrightarrow>
     calls ops lib (CallExpr i t (Index ops) (a0 # a1 # rest)) un
       a1 (WriteString (pad u i) ''['')"
| unary_operand:
    "unary_operator ops fn \<Longrightarrow> FindReverse ops fn = Some unmangled \<Longrightarrow>
     calls ops lib (CallExpr i t fn (a0 # rest)) un
       a0 (WriteString (pad un i) unmangled)"
| func_target:
    "plain_function ops fn \<Longrightarrow>
     calls ops lib (CallExpr i (Some target) fn args) un target un"
| func_args_no_target:
    "plain_function ops fn \<Longrightarrow>
     range_calls ops lib args (WriteString (pad (WriteString un fn) i) ''('') c v \<Longrightarrow>
     calls ops lib (CallExpr i None fn args) un c v"
| func_args_target:
    "plain_function ops fn \<Longrightarrow> visit ops lib target un = Return (u, None) \<Longrightarrow>
     range_calls ops lib args
       (WriteString (pad (WriteString (WriteString u ''.'') fn) i) ''('') c v \<Longrightarrow>
     calls ops lib (CallExpr i (Some target) fn args) un c v"
| list_elems:
    "range_calls ops lib elems (WriteString (pad un i) ''['') c v \<Longrightarrow>
     calls ops lib (ListExpr i elems) un c v"
| select_operand:
    "calls ops lib (SelectExpr i (Some operand) field test) un
       operand (if test then WriteString un ''has('' else un)"
| struct_msg:
    "name \<noteq> [] \<Longrightarrow>
     msg_calls ops lib entries (WriteString (pad (WriteString un name) i) ''{'') c v \<Longrightarrow>
     calls ops lib (StructExpr i name entries) un c v"
| struct_map:
    "map_calls ops lib entries (WriteString (pad un i) ''{'') c v \<Longrightarrow>
     calls ops lib (StructExpr i [] entries) un c v"

text \<open>
  \<open>visits ops lib e un c v\<close>: the run of visit on \<open>e\<close> in state \<open>un\<close> visits \<open>c\<close>, the
  root itself or a subexpression at any depth, in state \<open>v\<close>.
\<close>

inductive visits ::
  "operators \<Rightarrow> strconv \<Rightarrow> expr \<Rightarrow> unparser \<Rightarrow> expr \<Rightarrow> unparser \<Rightarrow> bool"
  for ops lib where
  visits_here: "visits ops lib e un e un"
| visits_below: "calls ops lib e un c u \<Longrightarrow> visits ops lib c u d v \<Longrightarrow> visits ops lib e un d v"

section \<open>The escape decoder\<close>

text \<open>
  Modelled from the spec: the escape decoder \<open>unescape\<close> of package parser. Its source
  file is not among the sources (only its test file is), so the decoder below is written
  from section 4.1 of the specification. A token and a decoded text are sequences of code
  points, a decoded byte sequence is a Go string.
\<close>

datatype decoded = Text "nat list" | Bytes string

datatype decode_error = DecodeError "nat list"

definition octal_digit :: "nat \<Rightarrow> bool" where
  "octal_digit c \<longleftrightarrow> 48 \<le> c \<and> c \<le> 55"

definition hex_digit :: "nat \<Rightarrow> bool" where
  "hex_digit c \<longleftrightarrow> (48 \<le> c \<and> c \<le> 57) \<or> (65 \<le> c \<and> c \<le> 70) \<or> (97 \<le> c \<and> c \<le> 102)"

definition hex_digit_value :: "nat \<Rightarrow> nat" where
  "hex_digit_value c = (if c \<le> 57 then c - 48 else if c \<le> 70 then c - 55 else c - 87)"

definition octal_value :: "nat list \<Rightarrow> nat" where
  "octal_value ds = foldl (\<lambda>a d. a * 8 + (d - 48)) 0 ds"

definition hex_value :: "nat list \<Rightarrow> nat" where
  "hex_value ds = foldl (\<lambda>a d. a * 16 + hex_digit_value d) 0 ds"

definition single_escape :: "nat \<Rightarrow> nat option" where
  "single_escape c =
     map_of [(97, 7), (98, 8), (102, 12), (110, 10), (114, 13), (116, 9), (118, 11),
             (39, 39), (34, 34), (92, 92), (63, 63)] c"

definition literal_units :: "bool \<Rightarrow> nat \<Rightarrow> nat list" where
  "literal_units byteMode c = (if byteMode then map byte (utf8_encode c) else [c])"

definition prepend :: "nat list \<Rightarrow> decode_error + nat list \<Rightarrow> decode_error + nat list" where
  "prepend xs r = (case r of Inl e \<Rightarrow> Inl e | Inr ys \<Rightarrow> Inr (xs @ ys))"

text \<open>
  Modelled from the spec: the scan of the escape body. A character other than the
  backslash is copied, as one code point in text mode and as its UTF-8 bytes in byte
  mode. A backslash starts an escape: one of the single-character escapes; an octal
  escape of one to three octal digits, taken greedily, whose value must fit in 0-255;
  \<open>\\x\<close> with exactly two hexadecimal digits; \<open>\\u\<close> with four or \<open>\\U\<close> with eight
  hexadecimal digits, in text mode only; anything else is an error. An octal or
  hexadecimal escape gives exactly one unit, a code point or a byte.
\<close>

function scan_body :: "bool \<Rightarrow> nat list \<Rightarrow> decode_error + nat list" where
  "scan_body byteMode [] = Inr []"
| "scan_body byteMode (c # rest) =
     (if c \<noteq> 92 then prepend (literal_units byteMode c) (scan_body byteMode rest)
      else case rest of
        [] \<Rightarrow> Inl (DecodeError [92])
      | e # rest' \<Rightarrow>
          (case single_escape e of
             Some v \<Rightarrow> prepend [v] (scan_body byteMode rest')
           | None \<Rightarrow>
               if octal_digit e then
                 (let ds = takeWhile octal_digit (take 3 rest) in
                  if octal_value ds \<le> 255
                  then prepend [octal_value ds] (scan_body byteMode (drop (length ds) rest))
                  else Inl (DecodeError (92 # ds)))
               else if e = 120 then
                 (let ds = take 2 rest' in
                  if length ds = 2 \<and> list_all hex_digit ds
                  then prepend [hex_value ds] (scan_body byteMode (drop 2 rest'))
                  else Inl (DecodeError (92 # e # ds)))
               else if e = 117 \<or> e = 85 then
                 (let n = (if e = 117 then 4 else 8); ds = take n rest' in
                  if byteMode then Inl (DecodeError (92 # e # ds))
                  else if length ds = n \<and> list_all hex_digit ds
                  then prepend [hex_value ds] (scan_body byteMode (drop n rest'))
                  else Inl (DecodeError (92 # e # ds)))
               else Inl (DecodeError [92, e])))"
  by pat_completeness auto
termination
  by (relation "measure (\<lambda>(byteMode, s). length s)") auto

text \<open>
  Modelled from the spec: the delimiter classification. The token starts with a quote
  character; it is triple-delimited when three of that character open and close it, and
  single-delimited otherwise.
\<close>

definition is_quote :: "nat \<Rightarrow> bool" where
  "is_quote c \<longleftrightarrow> c = 39 \<or> c = 34"

definition strip_delimiters :: "nat list \<Rightarrow> nat list option" where
  "strip_delimiters token =
     (case token of
        [] \<Rightarrow> None
      | q # _ \<Rightarrow>
          if \<not> is_quote q then None
          else if 6 \<le> length token \<and> take 3 token = [q, q, q]
                  \<and> drop (length token - 3) token = [q, q, q]
            then Some (take (length token - 6) (drop 3 token))
          else if 2 \<le> length token \<and> last token = q
            then Some (take (length token - 2) (drop 1 token))
          else None)"

text \<open>
  Modelled from the spec: \<open>decode(token, byteMode)\<close>, the whole decoder: either the
  decoded value or a single kind of error that carries the offending text.
\<close>

definition decode :: "nat list \<Rightarrow> bool \<Rightarrow> decode_error + decoded" where
  "decode token byteMode =
     (case strip_delimiters token of
        None \<Rightarrow> Inl (DecodeError token)
      | Some body \<Rightarrow>
          (case scan_body byteMode body of
             Inl e \<Rightarrow> Inl e
           | Inr units \<Rightarrow> Inr (if byteMode then Bytes (map char_of units) else Text units)))"

text \<open>The code points of an ASCII string, to write tokens down.\<close>

definition cps :: "string \<Rightarrow> nat list" where
  "cps s = map byte s"


section \<open>Properties of the printer\<close>

declare visit.simps [simp del] visitCall.simps [simp del] visitCallBinary.simps [simp del]
  visitCallConditional.simps [simp del] visitCallFunc.simps [simp del]
  visitCallFunc_args.simps [simp del] visitCallIndex.simps [simp del]
  visitCallUnary.simps [simp del] visitList.simps [simp del] visitList_elems.simps [simp del]
  visitSelect.simps [simp del] visitStruct.simps [simp del] visitStructMsg.simps [simp del]
  visitStructMsg_entries.simps [simp del] visitStructMap.simps [simp del]
  visitStructMap_entries.simps [simp del] visitMaybeNested.simps [simp del]
  pad_loop.simps [simp del] dec.simps [simp del] Unparse_scan.simps [simp del]

subsection \<open>Signed 32-bit arithmetic\<close>

lemma sint_succ: "sint (x + 1) = sint x + 1" if "x <s y" for x y :: int32
proof -
  from that have lt: "sint x < sint y" by (simp add: word_sless_alt)
  have ub: "sint y < 2 ^ 31" using sint_lt [of y] by simp
  have lb: "- (2 ^ 31) \<le> sint x" using sint_ge [of x] by simp
  have "sint (x + 1) = signed_take_bit 31 (sint x + 1)"
    by (simp add: sint_word_ariths)
  also have "\<dots> = sint x + 1"
    using lt ub lb by (simp add: signed_take_bit_int_eq_self_iff)
  finally show ?thesis .
qed

lemma sint_length: "sint (word_of_nat n :: int32) = int n" if "n < 2 ^ 31"
  using that by (simp add: signed_of_nat signed_take_bit_int_eq_self_iff)

subsection \<open>Padding\<close>

lemma pad_loop_eq:
  "pad_loop un lst nxt = un\<lparr>str := str un @ replicate (nat (sint nxt - sint lst)) CHR '' ''\<rparr>"
proof (induction un lst nxt rule: pad_loop.induct)
  case (1 un lst nxt)
  show ?case
  proof (cases "lst <s nxt")
    case True
    then have lt: "sint lst < sint nxt" by (simp add: word_sless_alt)
    have s: "sint (lst + 1) = sint lst + 1" using True by (rule sint_succ)
    have n: "nat (sint nxt - sint lst) = Suc (nat (sint nxt - (sint lst + 1)))"
      using lt by simp
    show ?thesis
      using "1.IH" [OF True] True
      by (subst pad_loop.simps) (simp add: WriteString_def s n)
  next
    case False
    then have "sint nxt \<le> sint lst" by (simp add: word_sless_alt)
    then show ?thesis using False by (subst pad_loop.simps) simp
  qed
qed

lemma pad_eq:
  "pad un i =
     un\<lparr>str := str un @ replicate
        (nat (sint (pos un i) - sint (word_of_nat (length (str un)) :: int32))) CHR '' ''\<rparr>"
  by (simp add: pad_def pad_loop_eq)

lemma sint_two_31: "sint (word_of_nat (2 ^ 31) :: int32) = - (2 ^ 31)"
  by (simp add: signed_of_nat)

text \<open>
  Claim C4, as amended. For every node id and every buffer, pad only appends space
  characters: what was in the buffer stays as it was, and pad is a total function, so it
  never fails. For every buffer shorter than \<open>2^31\<close> bytes, pad appends exactly (recorded
  offset - length) spaces when the offset recorded for the node in the position map
  exceeds the length of the buffer, and changes nothing when the recorded offset is at or
  behind the length or when the map records no offset for the node.
\<close>

theorem pad_appends_spaces:
  "(\<exists>n. pad un i = un\<lparr>str := str un @ replicate n CHR '' ''\<rparr>) \<and>
   (length (str un) < 2 ^ 31 \<longrightarrow>
      (\<forall>p. positions (info un) i = Some p \<longrightarrow>
         (int (length (str un)) < sint p \<longrightarrow>
            pad un i = un\<lparr>str := str un @
              replicate (nat (sint p) - length (str un)) CHR '' ''\<rparr>) \<and>
         (sint p \<le> int (length (str un)) \<longrightarrow> pad un i = un)) \<and>
      (positions (info un) i = None \<longrightarrow> pad un i = un))"
proof (intro conjI impI allI)
  show "\<exists>n. pad un i = un\<lparr>str := str un @ replicate n CHR '' ''\<rparr>"
    by (subst pad_eq) blast
next
  fix p
  assume len: "length (str un) < 2 ^ 31" and p: "positions (info un) i = Some p"
    and lt: "int (length (str un)) < sint p"
  have "nat (sint p - int (length (str un))) = nat (sint p) - length (str un)"
    by simp
  then show "pad un i = un\<lparr>str := str un @
      replicate (nat (sint p) - length (str un)) CHR '' ''\<rparr>"
    using p by (simp add: pad_eq pos_def sint_length [OF len])
next
  fix p
  assume len: "length (str un) < 2 ^ 31" and p: "positions (info un) i = Some p"
    and le: "sint p \<le> int (length (str un))"
  then show "pad un i = un"
    by (simp add: pad_eq pos_def sint_length [OF len])
next
  assume len: "length (str un) < 2 ^ 31" and "positions (info un) i = None"
  then show "pad un i = un"
    by (simp add: pad_eq pos_def sint_length [OF len])
qed

theorem pad_appends_spaces_witness:
  "pad \<lparr>info = \<lparr>positions = [7 \<mapsto> 5], line_offsets = []\<rparr>, str = ''ab'', offset = 0\<rparr> 7
     = \<lparr>info = \<lparr>positions = [7 \<mapsto> 5], line_offsets = []\<rparr>, str = ''ab   '', offset = 0\<rparr>
   \<and> pad \<lparr>info = \<lparr>positions = [7 \<mapsto> 1], line_offsets = []\<rparr>, str = ''ab'', offset = 0\<rparr> 7
     = \<lparr>info = \<lparr>positions = [7 \<mapsto> 1], line_offsets = []\<rparr>, str = ''ab'', offset = 0\<rparr>"
proof -
  let ?u = "\<lparr>info = \<lparr>positions = [7 \<mapsto> 5], line_offsets = []\<rparr>, str = ''ab'', offset = 0\<rparr>"
  let ?v = "\<lparr>info = \<lparr>positions = [7 \<mapsto> 1], line_offsets = []\<rparr>, str = ''ab'', offset = 0\<rparr>"
  have len: "length (str ?u) < 2 ^ 31" "length (str ?v) < 2 ^ 31" by simp_all
  have rec: "positions (info ?u) 7 = Some 5" "positions (info ?v) 7 = Some 1" by simp_all
  have ahead: "int (length (str ?u)) < sint (5 :: int32)" by simp
  have behind: "sint (1 :: int32) \<le> int (length (str ?v))" by simp
  have "pad ?u 7 =
      ?u\<lparr>str := str ?u @ replicate (nat (sint (5 :: int32)) - length (str ?u)) CHR '' ''\<rparr>"
    using pad_appends_spaces [of ?u 7] len(1) rec(1) ahead by blast
  moreover have "pad ?v 7 = ?v"
    using pad_appends_spaces [of ?v 7] len(2) rec(2) behind by blast
  ultimately show ?thesis by (simp add: numeral_3_eq_3)
qed

text \<open>
  The claim as stated, for every state of the buffer, fails on a buffer of \<open>2^31\<close> bytes:
  the int32 value of its length is \<open>- 2^31\<close>, and with the recorded offset 0, which lies
  behind the length, pad appends \<open>2^31\<close> spaces.
\<close>

theorem pad_appends_spaces_counterexample:
  "pad \<lparr>info = \<lparr>positions = [7 \<mapsto> 0], line_offsets = []\<rparr>,
         str = replicate (2 ^ 31) CHR ''a'', offset = 0\<rparr> 7
     = \<lparr>info = \<lparr>positions = [7 \<mapsto> 0], line_offsets = []\<rparr>,
        str = replicate (2 ^ 31) CHR ''a'' @ replicate (2 ^ 31) CHR '' '', offset = 0\<rparr>"
  by (simp add: pad_eq pos_def sint_two_31)

text \<open>
  Claim C10, as amended. For a node whose id has no entry in the position map, the
  recorded offset the printer uses is zero, and the padding step before the node inserts
  nothing and cannot fail whenever the buffer is shorter than \<open>2^31\<close> bytes.
\<close>

theorem pad_without_position:
  "positions (info un) i = None \<Longrightarrow>
     pos un i = 0 \<and> (length (str un) < 2 ^ 31 \<longrightarrow> pad un i = un)"
  by (simp add: pos_def pad_eq sint_length)

theorem pad_without_position_witness:
  "positions (info \<lparr>info = \<lparr>positions = [7 \<mapsto> 5], line_offsets = []\<rparr>, str = ''ab'',
                     offset = 0\<rparr>) 8 = None
   \<and> pad \<lparr>info = \<lparr>positions = [7 \<mapsto> 5], line_offsets = []\<rparr>, str = ''ab'', offset = 0\<rparr> 8
     = \<lparr>info = \<lparr>positions = [7 \<mapsto> 5], line_offsets = []\<rparr>, str = ''ab'', offset = 0\<rparr>"
  using pad_without_position
          [of "\<lparr>info = \<lparr>positions = [7 \<mapsto> 5], line_offsets = []\<rparr>, str = ''ab'', offset = 0\<rparr>" 8]
  by simp

text \<open>
  The claim as stated, a padding step that is always a no-op, fails on a buffer of
  \<open>2^31\<close> bytes: the int32 value of its length is negative, so the offset 0 of the
  missing entry lies ahead of it and pad appends \<open>2^31\<close> spaces.
\<close>

theorem pad_without_position_counterexample:
  "positions (info \<lparr>info = \<lparr>positions = Map.empty, line_offsets = []\<rparr>,
         str = replicate (2 ^ 31) CHR ''a'', offset = 0\<rparr>) 8 = None
   \<and> pad \<lparr>info = \<lparr>positions = Map.empty, line_offsets = []\<rparr>,
         str = replicate (2 ^ 31) CHR ''a'', offset = 0\<rparr> 8
     = \<lparr>info = \<lparr>positions = Map.empty, line_offsets = []\<rparr>,
        str = replicate (2 ^ 31) CHR ''a'' @ replicate (2 ^ 31) CHR '' '', offset = 0\<rparr>"
  by (simp add: pad_eq pos_def sint_two_31)

subsection \<open>Dispatch and helper facts\<close>

lemma ok_then_simps [simp]:
  "ok_then (Panic p) k = Panic p"
  "ok_then (Return (un, Some err)) k = Return (un, Some err)"
  "ok_then (Return (un, None)) k = k un"
  by (simp_all add: ok_then_def)

lemma visitMaybeNested_eq:
  "visitMaybeNested ops lib e b un = in_parens b (visit ops lib e) un"
  by (simp add: visitMaybeNested.simps in_parens_def ok_then_def split: outcome.splits option.splits prod.splits)

lemma isLowerPrecedence_eq: "isLowerPrecedence ops op e = call_of_greater_rank ops op e"
  by (cases e) (simp_all add: isLowerPrecedence_def call_of_greater_rank_def is_call_def)

lemma isSamePrecedence_eq: "isSamePrecedence ops op e = call_of_equal_rank ops op e"
  by (cases e) (auto simp add: isSamePrecedence_def call_of_equal_rank_def is_call_def)

lemma visit_binary_call:
  assumes "binary_operator ops fn"
  shows "visit ops lib (CallExpr i t fn args) un = visitCallBinary ops lib (CallExpr i t fn args) un"
  using assms by (simp add: visit.simps visitCall.simps binary_operator_def)

lemma visit_conditional_call:
  "visit ops lib (CallExpr i t (Conditional ops) args) un
     = visitCallConditional ops lib (CallExpr i t (Conditional ops) args) un"
  by (simp add: visit.simps visitCall.simps)

lemma visit_index_call:
  "Index ops \<noteq> Conditional ops \<Longrightarrow>
   visit ops lib (CallExpr i t (Index ops) args) un
     = visitCallIndex ops lib (CallExpr i t (Index ops) args) un"
  by (simp add: visit.simps visitCall.simps)


lemma cel_binary: "binary_operator cel_operators ''_*_''" "binary_operator cel_operators ''_+_''"
  "binary_operator cel_operators ''_-_''" "binary_operator cel_operators ''_&&_''"
  by (simp_all add: binary_operator_def binary_operators_def cel_operators_def)


lemma cel_Conditional: "Conditional cel_operators = ''_?_:_''"
  by (simp add: cel_operators_def)

lemma cel_Index: "Index cel_operators = ''_[_]''" "Index cel_operators \<noteq> Conditional cel_operators"
  by (simp_all add: cel_operators_def)

lemmas printer_eval =
  in_parens_def call_of_greater_rank_def call_of_equal_rank_def is_call_def
  is_conditional_call_def cel_operators_def visit.simps visitIdent_def pad_eq pos_def
  WriteString_def new_unparser_def no_info_def visitCall.simps visitCallBinary.simps
  visitCallConditional.simps visitMaybeNested.simps isLowerPrecedence_def
  isSamePrecedence_def isLeftRecursive_def binary_operators_def sint_length

subsection \<open>Binary operators\<close>

lemma binary_rendering:
  assumes "binary_operator ops fn"
  shows "visit ops lib (CallExpr i t fn (lhs # rhs # rest)) un =
     ok_then (in_parens (call_of_greater_rank ops fn lhs) (visit ops lib lhs) un) (\<lambda>un.
       case FindReverse ops fn of
         None \<Rightarrow> Return (un, Some (CannotUnmangle fn))
       | Some unmangled \<Rightarrow>
           in_parens
             (call_of_greater_rank ops fn rhs
              \<or> (call_of_equal_rank ops fn rhs \<and> fn \<noteq> LogicalAnd ops \<and> fn \<noteq> LogicalOr ops))
             (visit ops lib rhs)
             (WriteString (WriteString (pad (WriteString un '' '') i) unmangled) '' ''))"
proof -
  have paren: "(if \<not> call_of_greater_rank ops fn rhs \<and> isLeftRecursive ops fn
           then call_of_equal_rank ops fn rhs else call_of_greater_rank ops fn rhs)
        = (call_of_greater_rank ops fn rhs
              \<or> (call_of_equal_rank ops fn rhs \<and> fn \<noteq> LogicalAnd ops \<and> fn \<noteq> LogicalOr ops))"
    by (auto simp add: isLeftRecursive_def)
  show ?thesis
    unfolding visit_binary_call [OF assms]
    by (simp only: visitCallBinary.simps GetArgs.simps GetFunction.simps GetId.simps Let_def
        list.case visitMaybeNested_eq isLowerPrecedence_eq isSamePrecedence_eq paren)
qed

lemma binary_is_operator: "binary_operator ops fn \<Longrightarrow> fn \<in> set (operator_names ops)"
  by (simp add: binary_operator_def operator_names_def)

lemma lower_precedence_eq:
  assumes "precedence_table ops" "binary_operator ops fn"
  shows "call_of_greater_rank ops fn e = lower_precedence ops fn e"
proof -
  have pos: "0 < Precedence ops fn"
    using assms binary_is_operator [of ops fn] by (simp add: precedence_table_def)
  have "GetFunction e \<in> set (operator_names ops)"
    if "Precedence ops fn < Precedence ops (GetFunction e)"
    using that pos assms(1) unfolding precedence_table_def
    by (metis less_irrefl less_trans)
  then show ?thesis
    by (auto simp add: call_of_greater_rank_def lower_precedence_def operator_call_def
        precedence_rank_def)
qed

lemma equal_precedence_eq:
  assumes "precedence_table ops" "binary_operator ops fn"
  shows "call_of_equal_rank ops fn e = equal_precedence ops fn e"
proof -
  have pos: "0 < Precedence ops fn"
    using assms binary_is_operator [of ops fn] by (simp add: precedence_table_def)
  have "GetFunction e \<in> set (operator_names ops)"
    if "Precedence ops (GetFunction e) = Precedence ops fn"
    using that pos assms(1) unfolding precedence_table_def
    by (metis less_irrefl)
  then show ?thesis
    by (auto simp add: call_of_equal_rank_def equal_precedence_def operator_call_def
        precedence_rank_def)
qed

lemma cel_precedence_table: "precedence_table cel_operators"
  unfolding precedence_table_def
proof (intro conjI allI impI ballI)
  fix g assume "g \<in> set (operator_names cel_operators)"
  then show "0 < Precedence cel_operators g"
    by (auto simp add: operator_names_def binary_operators_def cel_operators_def)
next
  fix g assume "g \<notin> set (operator_names cel_operators)"
  then show "Precedence cel_operators g = 0"
    by (simp add: operator_names_def binary_operators_def cel_operators_def)
qed

lemmas rank_eval = lower_precedence_def equal_precedence_def operator_call_def
  operator_names_def precedence_rank_def

text \<open>
  Claim C1. For every binary-operator call node with its two operands, render writes
  \<open>lhs symbol rhs\<close>, and
  \<^item> the left operand is put in parentheses if and only if it is itself an operator call
    whose operator has a strictly lower precedence than the current operator, in the rank
    where lower binds looser;
  \<^item> the right operand is put in parentheses if and only if it is an operator call whose
    operator has a strictly lower precedence, or exactly the precedence of the current
    operator while that operator is left-recursive (it is neither logical-and nor
    logical-or);
  \<^item> an operand that is not an operator call is never put in parentheses.
  The operator table is a parameter: its lookup gives every operator name a positive
  number and every other name 0, as \<open>cel_operators\<close> does.
\<close>

theorem binary_parenthesization:
  assumes "precedence_table ops" "binary_operator ops fn"
  shows "visit ops lib (CallExpr i t fn (lhs # rhs # rest)) un =
     ok_then (in_parens (lower_precedence ops fn lhs) (visit ops lib lhs) un) (\<lambda>un.
       case FindReverse ops fn of
         None \<Rightarrow> Return (un, Some (CannotUnmangle fn))
       | Some unmangled \<Rightarrow>
           in_parens
             (lower_precedence ops fn rhs
              \<or> (equal_precedence ops fn rhs \<and> fn \<noteq> LogicalAnd ops \<and> fn \<noteq> LogicalOr ops))
             (visit ops lib rhs)
             (WriteString (WriteString (pad (WriteString un '' '') i) unmangled) '' ''))"
  using binary_rendering [OF assms(2), of lib i t lhs rhs rest un]
  by (simp only: lower_precedence_eq [OF assms] equal_precedence_eq [OF assms])

theorem binary_parenthesization_witness:
  "Unparse cel_operators plain_strconv
     (CallExpr 1 None ''_-_''
        [IdentExpr 2 ''a'', CallExpr 3 None ''_-_'' [IdentExpr 4 ''b'', IdentExpr 5 ''c'']])
     no_info = Return (''a - (b - c)'', None)
   \<and> Unparse cel_operators plain_strconv
     (CallExpr 1 None ''_-_''
        [CallExpr 2 None ''_-_'' [IdentExpr 3 ''a'', IdentExpr 4 ''b''], IdentExpr 5 ''c''])
     no_info = Return (''a - b - c'', None)
   \<and> Unparse cel_operators plain_strconv
     (CallExpr 1 None ''_&&_''
        [IdentExpr 2 ''a'', CallExpr 3 None ''_&&_'' [IdentExpr 4 ''b'', IdentExpr 5 ''c'']])
     no_info = Return (''a && b && c'', None)
   \<and> Unparse cel_operators plain_strconv
     (CallExpr 1 None ''_*_''
        [CallExpr 2 None ''_+_'' [IdentExpr 3 ''a'', IdentExpr 4 ''b''],
         CallExpr 5 None ''f'' [IdentExpr 6 ''x'']])
     no_info = Return (''(a + b) * f(x)'', None)"
  unfolding Unparse_def
    binary_parenthesization [OF cel_precedence_table cel_binary(3)]
    binary_parenthesization [OF cel_precedence_table cel_binary(4)]
    binary_parenthesization [OF cel_precedence_table cel_binary(1)]
  by (simp add: printer_eval rank_eval visitCallFunc.simps visitCallFunc_args.simps)

subsection \<open>The conditional\<close>




subsection \<open>Calls with missing arguments\<close>

text \<open>
  Claim C2, as amended. A call whose function is a binary operator and that carries fewer
  than two arguments makes render panic with an index out of range, before any operand is
  visited. A call of the index operator with fewer than two arguments, or of the
  conditional with fewer than three, has its present arguments visited in order and then
  panics with an index out of range at the first missing one, unless the visit of a
  present argument failed already: then that failure is the outcome. No error describing
  the shape of the tree is returned, and no text.
\<close>

theorem missing_arguments:
  "(binary_operator ops fn \<and> length args < 2 \<longrightarrow>
      visit ops lib (CallExpr i t fn args) un = Panic IndexOutOfRange)
   \<and> (Index ops \<noteq> Conditional ops \<longrightarrow>
        visit ops lib (CallExpr i t (Index ops) []) un = Panic IndexOutOfRange
      \<and> visit ops lib (CallExpr i t (Index ops) [a]) un
          = ok_then (visit ops lib a un) (\<lambda>un. Panic IndexOutOfRange))
   \<and> visit ops lib (CallExpr i t (Conditional ops) []) un = Panic IndexOutOfRange
   \<and> visit ops lib (CallExpr i t (Conditional ops) [a]) un
       = ok_then (in_parens (isSamePrecedence ops (Conditional ops) a) (visit ops lib a) un)
           (\<lambda>un. Panic IndexOutOfRange)
   \<and> visit ops lib (CallExpr i t (Conditional ops) [a, b]) un
       = ok_then (in_parens (isSamePrecedence ops (Conditional ops) a) (visit ops lib a) un)
           (\<lambda>un. ok_then (in_parens (isSamePrecedence ops (Conditional ops) b) (visit ops lib b)
                             (WriteString (pad un i) ''? ''))
                   (\<lambda>un. Panic IndexOutOfRange))"
proof (intro conjI impI)
  assume "binary_operator ops fn \<and> length args < 2"
  then have b: "binary_operator ops fn" and "args = [] \<or> (\<exists>x. args = [x])"
    by (auto simp add: less_Suc_eq numeral_2_eq_2 length_Suc_conv)
  then show "visit ops lib (CallExpr i t fn args) un = Panic IndexOutOfRange"
    unfolding visit_binary_call [OF b]
    by (auto simp add: visitCallBinary.simps)
next
  assume "Index ops \<noteq> Conditional ops"
  then show "visit ops lib (CallExpr i t (Index ops) []) un = Panic IndexOutOfRange"
    by (simp add: visit_index_call visitCallIndex.simps)
next
  assume "Index ops \<noteq> Conditional ops"
  then show "visit ops lib (CallExpr i t (Index ops) [a]) un
          = ok_then (visit ops lib a un) (\<lambda>un. Panic IndexOutOfRange)"
    by (simp add: visit_index_call visitCallIndex.simps)
next
  show "visit ops lib (CallExpr i t (Conditional ops) []) un = Panic IndexOutOfRange"
    by (simp add: visit_conditional_call visitCallConditional.simps)
next
  show "visit ops lib (CallExpr i t (Conditional ops) [a]) un
       = ok_then (in_parens (isSamePrecedence ops (Conditional ops) a) (visit ops lib a) un)
           (\<lambda>un. Panic IndexOutOfRange)"
    by (simp add: visit_conditional_call visitCallConditional.simps visitMaybeNested_eq)
next
  show "visit ops lib (CallExpr i t (Conditional ops) [a, b]) un
       = ok_then (in_parens (isSamePrecedence ops (Conditional ops) a) (visit ops lib a) un)
           (\<lambda>un. ok_then (in_parens (isSamePrecedence ops (Conditional ops) b) (visit ops lib b)
                             (WriteString (pad un i) ''? ''))
                   (\<lambda>un. Panic IndexOutOfRange))"
    by (simp add: visit_conditional_call visitCallConditional.simps visitMaybeNested_eq)
qed

theorem missing_arguments_witness:
  "visit cel_operators plain_strconv (CallExpr 1 None ''_+_'' [IdentExpr 2 ''a''])
     (new_unparser no_info) = Panic IndexOutOfRange
   \<and> visit cel_operators plain_strconv (CallExpr 1 None ''_[_]'' [ComprehensionExpr 2])
     (new_unparser no_info)
     = Return (new_unparser no_info, Some (Unimplemented (ComprehensionExpr 2)))
   \<and> visit cel_operators plain_strconv (CallExpr 1 None ''_?_:_'' [IdentExpr 2 ''a''])
     (new_unparser no_info) = Panic IndexOutOfRange"
proof -
  have len: "length [IdentExpr 2 ''a''] < 2" by simp
  have 1: "visit cel_operators plain_strconv (CallExpr 1 None ''_+_'' [IdentExpr 2 ''a''])
     (new_unparser no_info) = Panic IndexOutOfRange"
    using missing_arguments [of cel_operators "''_+_''" "[IdentExpr 2 ''a'']"] cel_binary(2) len
    by blast
  have 2: "visit cel_operators plain_strconv (CallExpr 1 None ''_[_]'' [ComprehensionExpr 2])
     (new_unparser no_info)
     = ok_then (visit cel_operators plain_strconv (ComprehensionExpr 2) (new_unparser no_info))
         (\<lambda>un. Panic IndexOutOfRange)"
    using missing_arguments [of cel_operators _ _ plain_strconv 1 None "new_unparser no_info"
        "ComprehensionExpr 2"] cel_Index
    by simp
  have 3: "visit cel_operators plain_strconv (CallExpr 1 None ''_?_:_'' [IdentExpr 2 ''a''])
     (new_unparser no_info)
     = ok_then (in_parens (isSamePrecedence cel_operators (Conditional cel_operators)
                  (IdentExpr 2 ''a''))
                  (visit cel_operators plain_strconv (IdentExpr 2 ''a'')) (new_unparser no_info))
         (\<lambda>un. Panic IndexOutOfRange)"
    using missing_arguments [of cel_operators _ _ plain_strconv 1 None "new_unparser no_info"
        "IdentExpr 2 ''a''"] cel_Conditional
    by simp
  show ?thesis
    unfolding 1 2 3
    by (simp add: visit.simps visitComprehension_def visitIdent_def in_parens_def
        isSamePrecedence_def)
qed

text \<open>
  The claim as stated asks for a returned error; each of these three calls panics
  instead.
\<close>

theorem missing_arguments_counterexample:
  "Unparse cel_operators plain_strconv (CallExpr 1 None ''_+_'' [IdentExpr 2 ''a'']) no_info
     = Panic IndexOutOfRange
   \<and> Unparse cel_operators plain_strconv (CallExpr 1 None ''_[_]'' [IdentExpr 2 ''a'']) no_info
     = Panic IndexOutOfRange
   \<and> Unparse cel_operators plain_strconv
       (CallExpr 1 None ''_?_:_'' [IdentExpr 2 ''a'', IdentExpr 3 ''b'']) no_info
     = Panic IndexOutOfRange"
  by code_simp

subsection \<open>Line breaks\<close>

lemma break_at_beyond: "length txt \<le> k \<Longrightarrow> break_at txt k = txt"
  by (simp add: break_at_def)

lemma break_at_hit: "k < length txt \<Longrightarrow> txt ! k = 0x20 \<Longrightarrow> break_at txt k = txt[k := 0x0A]"
  by (simp add: break_at_def Cons_nth_drop_Suc [symmetric])

lemma break_at_miss:
  "k < length txt \<Longrightarrow> txt ! k \<noteq> 0x20 \<Longrightarrow> break_at txt k = break_at txt (Suc k)"
  by (simp add: break_at_def Cons_nth_drop_Suc [symmetric] Let_def)

lemma length_break_at [simp]: "length (break_at txt k) = length txt"
  by (simp add: break_at_def Let_def)

lemma Unparse_scan_eq:
  "length t < 2 ^ 31 \<Longrightarrow> sz = word_of_nat (length t) \<Longrightarrow> 0 \<le> sint (br - 1) \<Longrightarrow>
     Unparse_scan t sz br = Return (break_at t (nat (sint (br - 1))))"
proof (induction t sz br rule: Unparse_scan.induct)
  case (1 t sz br)
  have sz: "sint sz = int (length t)"
    using "1.prems" by (simp add: sint_length)
  show ?case
  proof (cases "br - 1 <s sz")
    case False
    then have "length t \<le> nat (sint (br - 1))"
      using sz "1.prems"(3) by (simp add: word_sless_alt)
    then show ?thesis
      using False by (subst Unparse_scan.simps) (simp add: break_at_beyond)
  next
    case True
    then have lt: "nat (sint (br - 1)) < length t"
      using sz "1.prems"(3) by (simp add: word_sless_alt)
    have inb: "\<not> (sint (br - 1) < 0 \<or> int (length t) \<le> sint (br - 1))"
      using lt "1.prems"(3) by simp
    show ?thesis
    proof (cases "t ! nat (sint (br - 1)) = 0x20")
      case hit: True
      show ?thesis
        using True inb hit lt
        by (subst Unparse_scan.simps) (simp add: break_at_hit)
    next
      case miss: False
      have "sint (br - 1 + 1) = sint (br - 1) + 1"
        using True by (rule sint_succ)
      then have next_idx: "sint (br + 1 - 1) = sint (br - 1) + 1" by simp
      then have nn: "0 \<le> sint (br + 1 - 1)" using "1.prems"(3) by simp
      have "Unparse_scan t sz (br + 1) = Return (break_at t (nat (sint (br + 1 - 1))))"
        using "1.IH" [OF True inb miss "1.prems"(1) "1.prems"(2) nn] .
      moreover have "nat (sint (br + 1 - 1)) = Suc (nat (sint (br - 1)))"
        using next_idx "1.prems"(3) by simp
      ultimately show ?thesis
        using True inb miss lt
        by (subst Unparse_scan.simps) (simp add: break_at_miss)
    qed
  qed
qed

lemma sint_pred: "1 \<le> sint br \<Longrightarrow> sint (br - 1) = sint br - 1" for br :: int32
proof -
  assume a: "1 \<le> sint br"
  have ub: "sint br < 2 ^ 31" using sint_lt [of br] by simp
  have "sint (br - 1) = signed_take_bit 31 (sint br - 1)"
    by (simp add: sint_word_ariths)
  also have "\<dots> = sint br - 1"
    using a ub by (simp add: signed_take_bit_int_eq_self_iff)
  finally show ?thesis .
qed

lemma Unparse_breaks_eq:
  "length t < 2 ^ 31 \<Longrightarrow> \<forall>br \<in> set breaks. 1 \<le> sint br \<Longrightarrow>
     Unparse_breaks t (word_of_nat (length t)) breaks
       = Return (foldl (\<lambda>t br. break_at t (nat (sint br) - 1)) t breaks)"
proof (induction breaks arbitrary: t)
  case Nil
  show ?case by simp
next
  case (Cons br breaks)
  have br: "1 \<le> sint br" using Cons.prems(2) by simp
  have idx: "nat (sint (br - 1)) = nat (sint br) - 1" "0 \<le> sint (br - 1)"
    using br by (simp_all add: sint_pred)
  have scan: "Unparse_scan t (word_of_nat (length t)) br
      = Return (break_at t (nat (sint br) - 1))"
    using Unparse_scan_eq [OF Cons.prems(1) refl idx(2)] idx(1) by simp
  have "Unparse_breaks (break_at t (nat (sint br) - 1))
          (word_of_nat (length (break_at t (nat (sint br) - 1)))) breaks
      = Return (foldl (\<lambda>t br. break_at t (nat (sint br) - 1))
          (break_at t (nat (sint br) - 1)) breaks)"
    using Cons.prems by (intro Cons.IH) simp_all
  then show ?case by (simp add: scan)
qed

declare runes_of_string.simps [simp del]

text \<open>
  Claim C3, as amended. For every tree and position map on which render succeeds:
  \<^item> when at most one line-break offset is recorded, the generated text is returned as it
    is, with no replacement;
  \<^item> when two or more are recorded, each of them at least 1 and the text shorter than
    \<open>2^31\<close> characters, then for each recorded offset \<open>br\<close>, in the recorded order, the
    printer scans the characters of the text forward from index \<open>br - 1\<close>, replaces the
    first space it finds by a line break, and drops the break without error when no space
    occurs from that index to the end of the text.
\<close>

theorem line_break_reinsertion:
  assumes "visit ops lib e (new_unparser sinfo) = Return (un, None)"
  shows "(length (line_offsets sinfo) \<le> 1 \<longrightarrow> Unparse ops lib e sinfo = Return (str un, None))
    \<and> (1 < length (line_offsets sinfo) \<and> (\<forall>br \<in> set (line_offsets sinfo). 1 \<le> sint br)
         \<and> length (runes_of_string (str un)) < 2 ^ 31 \<longrightarrow>
       Unparse ops lib e sinfo
         = Return (string_of_runes
             (foldl (\<lambda>t br. break_at t (nat (sint br) - 1)) (runes_of_string (str un))
                (line_offsets sinfo)), None))"
  using assms by (simp add: Unparse_def Unparse_breaks_eq)

lemma sum_visit:
  "visit cel_operators plain_strconv
     (CallExpr 1 None ''_+_'' [IdentExpr 2 ''a'', IdentExpr 3 ''b''])
     (new_unparser \<lparr>positions = Map.empty, line_offsets = [2, 6]\<rparr>)
   = Return (\<lparr>info = \<lparr>positions = Map.empty, line_offsets = [2, 6]\<rparr>, str = ''a + b'',
               offset = 0\<rparr>, None)"
  by (simp add: printer_eval)

lemma sum_runes: "runes_of_string ''a + b'' = [0x61, 0x20, 0x2B, 0x20, 0x62]"
  by code_simp

lemma sum_breaks:
  "string_of_runes (break_at (break_at [0x61, 0x20, 0x2B, 0x20, 0x62] (Suc 0)) 5)
     = [CHR ''a'', CHR 0x0A, CHR ''+'', CHR '' '', CHR ''b'']"
  by code_simp

theorem line_break_reinsertion_witness:
  "Unparse cel_operators plain_strconv
     (CallExpr 1 None ''_+_'' [IdentExpr 2 ''a'', IdentExpr 3 ''b''])
     \<lparr>positions = Map.empty, line_offsets = [2, 6]\<rparr>
   = Return ([CHR ''a'', CHR 0x0A, CHR ''+'', CHR '' '', CHR ''b''], None)"
  using line_break_reinsertion [OF sum_visit]
  by (simp add: sum_runes sum_breaks)

text \<open>
  The claim as stated fails three times. With one recorded offset, 2, the text \<open>a + b\<close>
  comes back unchanged although a space stands at index 3. With two recorded offsets, 2
  and 6, the space that becomes a line break is the one at index 1, before the offset 2.
  With the recorded offsets 0 and 3, the scan starts at index \<open>- 1\<close> and the run stops
  with an index-out-of-range panic.
\<close>

theorem line_break_reinsertion_counterexample:
  "Unparse cel_operators plain_strconv
     (CallExpr 1 None ''_+_'' [IdentExpr 2 ''a'', IdentExpr 3 ''b''])
     \<lparr>positions = Map.empty, line_offsets = [2]\<rparr>
   = Return (''a + b'', None)
   \<and> ''a + b'' ! 3 = CHR '' ''
   \<and> Unparse cel_operators plain_strconv
     (CallExpr 1 None ''_+_'' [IdentExpr 2 ''a'', IdentExpr 3 ''b''])
     \<lparr>positions = Map.empty, line_offsets = [2, 6]\<rparr>
   = Return ([CHR ''a'', CHR 0x0A, CHR ''+'', CHR '' '', CHR ''b''], None)
   \<and> Unparse cel_operators plain_strconv
     (CallExpr 1 None ''_+_'' [IdentExpr 2 ''a'', IdentExpr 3 ''b''])
     \<lparr>positions = Map.empty, line_offsets = [0, 3]\<rparr>
   = Panic IndexOutOfRange"
  by code_simp

subsection \<open>Comprehensions\<close>

lemma ok_then_error:
  "r = Return (w, Some err) \<Longrightarrow> ok_then r k = Return (w, Some err)"
  by simp

lemma range_calls_args:
  "range_calls ops lib xs un c v \<Longrightarrow> visit ops lib c v = Return (w, Some err) \<Longrightarrow>
     visitCallFunc_args ops lib xs un = Return (w, Some err)"
  by (induction rule: range_calls.induct) (simp_all add: visitCallFunc_args.simps [of _ _ "_ # _"])

lemma range_calls_elems:
  "range_calls ops lib xs un c v \<Longrightarrow> visit ops lib c v = Return (w, Some err) \<Longrightarrow>
     visitList_elems ops lib xs un = Return (w, Some err)"
  by (induction rule: range_calls.induct) (simp_all add: visitList_elems.simps [of _ _ "_ # _"])

lemma msg_calls_entries:
  "msg_calls ops lib xs un c v \<Longrightarrow> visit ops lib c v = Return (w, Some err) \<Longrightarrow>
     visitStructMsg_entries ops lib xs un = Return (w, Some err)"
  by (induction rule: msg_calls.induct)
     (simp_all add: visitStructMsg_entries.simps [of _ _ "_ # _"] Let_def)

lemma map_calls_entries:
  "map_calls ops lib xs un c v \<Longrightarrow> visit ops lib c v = Return (w, Some err) \<Longrightarrow>
     visitStructMap_entries ops lib xs un = Return (w, Some err)"
  by (induction rule: map_calls.induct)
     (simp_all add: visitStructMap_entries.simps [of _ _ "_ # _"] Let_def)

lemma visitMaybeNested_error:
  "visit ops lib e (open_paren nested un) = Return (w, Some err) \<Longrightarrow>
     visitMaybeNested ops lib e nested un = Return (w, Some err)"
  by (simp add: visitMaybeNested.simps open_paren_def Let_def split: if_splits)

lemma unary_dispatch:
  "unary_operator ops fn \<Longrightarrow>
   visit ops lib (CallExpr i t fn args) un = visitCallUnary ops lib (CallExpr i t fn args) un"
  by (auto simp add: visit.simps visitCall.simps unary_operator_def)

lemma func_dispatch:
  "plain_function ops fn \<Longrightarrow>
   visit ops lib (CallExpr i t fn args) un = visitCallFunc ops lib (CallExpr i t fn args) un"
  by (auto simp add: visit.simps visitCall.simps plain_function_def)

lemma rhs_paren_eq: "(if \<not> L \<and> R then S else L) = (L \<or> R \<and> S)"
  by auto

lemma calls_error:
  assumes "calls ops lib e un c v" and err: "visit ops lib c v = Return (w, Some err)"
  shows "visit ops lib e un = Return (w, Some err)"
  using assms(1)
proof (cases rule: calls.cases)
  case binary_lhs
  then show ?thesis
    using err by (simp add: visit_binary_call visitCallBinary.simps Let_def visitMaybeNested_error)
next
  case binary_rhs
  then show ?thesis
    using err
    by (simp add: visit_binary_call visitCallBinary.simps Let_def rhs_paren_eq
        visitMaybeNested_error del: split_paired_All)
next
  case conditional_cond
  then show ?thesis
    using err
    by (simp add: visit_conditional_call visitCallConditional.simps Let_def
        visitMaybeNested_error)
next
  case conditional_then
  then show ?thesis
    using err
    by (simp add: visit_conditional_call visitCallConditional.simps Let_def
        visitMaybeNested_error)
next
  case conditional_else
  then show ?thesis
    using err
    by (simp add: visit_conditional_call visitCallConditional.simps Let_def
        visitMaybeNested_error)
next
  case index_operand
  then show ?thesis
    using err by (simp add: visit_index_call visitCallIndex.simps Let_def)
next
  case index_key
  then show ?thesis
    using err by (simp add: visit_index_call visitCallIndex.simps Let_def)
next
  case unary_operand
  then show ?thesis
    using err by (simp add: unary_dispatch visitCallUnary.simps Let_def)
next
  case func_target
  then show ?thesis
    using err by (simp add: func_dispatch visitCallFunc.simps Let_def)
next
  case func_args_no_target
  then show ?thesis
    by (simp add: func_dispatch visitCallFunc.simps Let_def range_calls_args [OF _ err])
next
  case func_args_target
  then show ?thesis
    by (simp add: func_dispatch visitCallFunc.simps Let_def range_calls_args [OF _ err])
next
  case list_elems
  then show ?thesis
    by (simp add: visit.simps visitList.simps Let_def range_calls_elems [OF _ err])
next
  case select_operand
  then show ?thesis
    using err by (simp add: visit.simps visitSelect.simps Let_def)
next
  case struct_msg
  then show ?thesis
    by (simp add: visit.simps visitStruct.simps visitStructMsg.simps Let_def
        msg_calls_entries [OF _ err])
next
  case struct_map
  then show ?thesis
    by (simp add: visit.simps visitStruct.simps visitStructMap.simps Let_def
        map_calls_entries [OF _ err])
qed

lemma visits_error:
  "visits ops lib e un c v \<Longrightarrow> visit ops lib c v = Return (w, Some err) \<Longrightarrow>
     visit ops lib e un = Return (w, Some err)"
  by (induction rule: visits.induct) (auto intro: calls_error)

text \<open>
  Claim C8. For every tree whose root or any visited subexpression is a comprehension
  node, render returns the explicit "unimplemented" error for that node, together with the
  empty text: whatever was written before the node is dropped.
\<close>

theorem comprehension_unimplemented:
  assumes "visits ops lib e (new_unparser sinfo) (ComprehensionExpr i) v"
  shows "Unparse ops lib e sinfo = Return ([], Some (Unimplemented (ComprehensionExpr i)))"
proof -
  have "visit ops lib (ComprehensionExpr i) v
      = Return (v, Some (Unimplemented (ComprehensionExpr i)))"
    by (simp add: visit.simps visitComprehension_def)
  from visits_error [OF assms this] show ?thesis
    by (simp add: Unparse_def)
qed

lemma list_visit:
  "visit cel_operators plain_strconv (IdentExpr 2 ''a'')
     (WriteString (pad (new_unparser no_info) 1) ''['')
   = Return (\<lparr>info = no_info, str = ''[a'', offset = 0\<rparr>, None)"
  by (simp add: printer_eval)

lemma list_visits:
  "visits cel_operators plain_strconv
     (ListExpr 1 [IdentExpr 2 ''a'', ComprehensionExpr 3]) (new_unparser no_info)
     (ComprehensionExpr 3) (WriteString \<lparr>info = no_info, str = ''[a'', offset = 0\<rparr> '','')"
proof -
  have "range_calls cel_operators plain_strconv [IdentExpr 2 ''a'', ComprehensionExpr 3]
      (WriteString (pad (new_unparser no_info) 1) ''['')
      (ComprehensionExpr 3) (WriteString \<lparr>info = no_info, str = ''[a'', offset = 0\<rparr> '','')"
    by (rule range_tail [OF list_visit]) (simp add: range_head)
  from list_elems [OF this] show ?thesis
    by (rule visits_below) (rule visits_here)
qed

theorem comprehension_unimplemented_witness:
  "Unparse cel_operators plain_strconv
     (ListExpr 1 [IdentExpr 2 ''a'', ComprehensionExpr 3]) no_info
     = Return ([], Some (Unimplemented (ComprehensionExpr 3)))
   \<and> Unparse cel_operators plain_strconv (ComprehensionExpr 3) no_info
     = Return ([], Some (Unimplemented (ComprehensionExpr 3)))"
  using comprehension_unimplemented [OF list_visits]
    comprehension_unimplemented [OF visits_here [of cel_operators plain_strconv
      "ComprehensionExpr 3" "new_unparser no_info"]]
  by simp

section \<open>Properties of the decoder\<close>

declare scan_body.simps [simp del]

lemma prepend_simps [simp]:
  "prepend xs (Inl e) = Inl e"
  "prepend xs (Inr ys) = Inr (xs @ ys)"
  by (simp_all add: prepend_def)

lemma prepend_prepend: "prepend xs (prepend ys r) = prepend (xs @ ys) r"
  by (cases r) simp_all

lemma prepend_Inr_iff: "prepend xs r = Inr zs \<longleftrightarrow> (\<exists>ys. r = Inr ys \<and> zs = xs @ ys)"
  by (cases r) auto






lemma scan_unicode_text:
  assumes "list_all hex_digit ds" and "u = 117 \<and> length ds = 4 \<or> u = 85 \<and> length ds = 8"
  shows "scan_body False (92 # u # ds @ rest) = prepend [hex_value ds] (scan_body False rest)"
  using assms
  by (auto simp add: scan_body.simps(2) [of _ 92] single_escape_def octal_digit_def Let_def)

lemma scan_unicode_bytes:
  assumes "u = 117 \<or> u = 85"
  shows "\<exists>err. scan_body True (92 # u # rest) = Inl err"
  using assms
  by (auto simp add: scan_body.simps(2) [of _ 92] single_escape_def octal_digit_def Let_def)

lemma takeWhile_take_append:
  "\<not> P y \<Longrightarrow> takeWhile P (take n (xs @ y # ys)) = takeWhile P (take n xs)"
proof (induction xs arbitrary: n)
  case Nil
  then show ?case by (cases n) simp_all
next
  case (Cons x xs)
  then show ?case by (cases n) simp_all
qed

lemma length_takeWhile_take: "length (takeWhile P (take n xs)) \<le> length xs"
  by (rule order_trans [OF length_takeWhile_le]) simp

lemma prepend_Nil [simp]: "prepend [] r = r"
  by (cases r) simp_all

lemma octal_92: "\<not> octal_digit 92"
  by (simp add: octal_digit_def)

lemma scan_prefix:
  "scan_body byteMode pre = Inr xs \<Longrightarrow>
     scan_body byteMode (pre @ 92 # rest) = prepend xs (scan_body byteMode (92 # rest))"
proof (induction pre arbitrary: xs rule: length_induct)
  case (1 pre)
  note IH = "1.IH" [rule_format]
  show ?case
  proof (cases pre)
    case Nil
    then show ?thesis using "1.prems" by (simp add: scan_body.simps(1))
  next
    case (Cons c tl)
    show ?thesis
    proof (cases "c = 92")
      case False
      from "1.prems" obtain ys where ys: "scan_body byteMode tl = Inr ys"
        and xs: "xs = literal_units byteMode c @ ys"
        using False Cons by (auto simp add: scan_body.simps(2) prepend_Inr_iff)
      have "scan_body byteMode (tl @ 92 # rest) = prepend ys (scan_body byteMode (92 # rest))"
        using IH [of tl ys] ys Cons by simp
      then show ?thesis
        using False Cons xs by (simp add: scan_body.simps(2) [of _ c] prepend_prepend)
    next
      case True
      from "1.prems" True Cons obtain e tl' where tl: "tl = e # tl'"
        by (cases tl) (auto simp add: scan_body.simps(2) [of _ 92])
      have pre: "pre = 92 # e # tl'" using Cons True tl by simp
      show ?thesis
      proof (cases "single_escape e")
        case (Some v)
        from "1.prems" obtain ys where ys: "scan_body byteMode tl' = Inr ys" and xs: "xs = [v] @ ys"
          using Some pre by (auto simp add: scan_body.simps(2) [of _ 92] prepend_Inr_iff)
        have "scan_body byteMode (tl' @ 92 # rest) = prepend ys (scan_body byteMode (92 # rest))"
          using IH [of tl' ys] ys pre by simp
        then show ?thesis
          using Some pre xs by (simp add: scan_body.simps(2) [of _ 92] prepend_prepend)
      next
        case None
        consider (oct) "octal_digit e" | (hex) "\<not> octal_digit e" "e = 120"
          | (uni) "\<not> octal_digit e" "e \<noteq> 120" "e = 117 \<or> e = 85"
          | (bad) "\<not> octal_digit e" "e \<noteq> 120" "e \<noteq> 117" "e \<noteq> 85"
          by blast
        then show ?thesis
        proof cases
          case oct
          define ds where "ds = takeWhile octal_digit (take 3 (e # tl'))"
          have len: "length ds \<le> length (e # tl')"
            unfolding ds_def by (rule length_takeWhile_take)
          from "1.prems" obtain ys where
            ys: "scan_body byteMode (drop (length ds) (e # tl')) = Inr ys"
            and xs: "xs = [octal_value ds] @ ys" and v: "octal_value ds \<le> 255"
            using None oct pre
            by (auto simp add: scan_body.simps(2) [of _ 92] prepend_Inr_iff Let_def ds_def
                simp del: take_Cons' drop_Cons' split: if_splits)
          have tw: "takeWhile octal_digit (take 3 ((e # tl') @ 92 # rest)) = ds"
            unfolding ds_def by (rule takeWhile_take_append [of octal_digit 92, OF octal_92])
          have dr: "drop (length ds) ((e # tl') @ 92 # rest)
              = drop (length ds) (e # tl') @ 92 # rest"
            using len by (simp only: drop_append) simp
          have "length (drop (length ds) (e # tl')) < length pre"
            using pre by simp
          then have "scan_body byteMode (drop (length ds) (e # tl') @ 92 # rest)
              = prepend ys (scan_body byteMode (92 # rest))"
            using IH [of "drop (length ds) (e # tl')" ys] ys by simp
          moreover have "scan_body byteMode (pre @ 92 # rest)
              = prepend [octal_value ds]
                  (scan_body byteMode (drop (length ds) (e # tl') @ 92 # rest))"
            unfolding pre using None oct v tw dr
            by (simp only: append_Cons, subst scan_body.simps(2))
               (simp add: Let_def del: take_Cons' drop_Cons' takeWhile.simps)
          ultimately show ?thesis
            using xs by (simp add: prepend_prepend)
        next
          case hex
          from "1.prems" obtain ys where ys: "scan_body byteMode (drop 2 tl') = Inr ys"
            and xs: "xs = [hex_value (take 2 tl')] @ ys"
            and ok: "length (take 2 tl') = 2" "list_all hex_digit (take 2 tl')"
            using None hex pre
            by (auto simp add: scan_body.simps(2) [of _ 92] prepend_Inr_iff Let_def
                simp del: take_Cons' drop_Cons' split: if_splits)
          have l2: "2 \<le> length tl'" using ok(1) by simp
          have "scan_body byteMode (drop 2 tl' @ 92 # rest)
              = prepend ys (scan_body byteMode (92 # rest))"
            using IH [of "drop 2 tl'" ys] ys pre by simp
          moreover have "scan_body byteMode (pre @ 92 # rest)
              = prepend [hex_value (take 2 tl')] (scan_body byteMode (drop 2 tl' @ 92 # rest))"
            unfolding pre using None hex ok l2
            by (simp only: append_Cons, subst scan_body.simps(2))
               (simp add: Let_def del: take_Cons' drop_Cons')
          ultimately show ?thesis
            using xs by (simp add: prepend_prepend)
        next
          case uni
          define n :: nat where "n = (if e = 117 then 4 else 8)"
          from "1.prems" obtain ys where ys: "scan_body byteMode (drop n tl') = Inr ys"
            and xs: "xs = [hex_value (take n tl')] @ ys"
            and ok: "length (take n tl') = n" "list_all hex_digit (take n tl')"
            and bm: "\<not> byteMode"
            using None uni pre
            by (auto simp add: scan_body.simps(2) [of _ 92] prepend_Inr_iff Let_def n_def
                simp del: take_Cons' drop_Cons' split: if_splits)
          have ln: "n \<le> length tl'" using ok(1) by simp
          have "scan_body byteMode (drop n tl' @ 92 # rest)
              = prepend ys (scan_body byteMode (92 # rest))"
            using IH [of "drop n tl'" ys] ys pre by simp
          moreover have "scan_body byteMode (pre @ 92 # rest)
              = prepend [hex_value (take n tl')] (scan_body byteMode (drop n tl' @ 92 # rest))"
            unfolding pre using None uni ok ln bm
            by (simp only: append_Cons, subst scan_body.simps(2))
               (auto simp add: Let_def n_def simp del: take_Cons' drop_Cons')
          ultimately show ?thesis
            using xs by (simp add: prepend_prepend)
        next
          case bad
          then show ?thesis
            using "1.prems" None pre by (simp add: scan_body.simps(2) [of _ 92])
        qed
      qed
    qed
  qed
qed








lemma unicode_examples:
  "decode (34 # 92 # cps ''u00ff'' @ [34]) True = Inl (DecodeError (92 # cps ''u00ff''))"
  "decode (34 # 92 # cps ''u00ff'' @ [34]) False = Inr (Text [0xFF])"
  by code_simp+

text \<open>
  Claim C6. For every quoted token whose body holds a unicode escape, \<open>\\u\<close> or \<open>\\U\<close>,
  behind a stretch that scans without error, decode in byte mode returns an error; in text
  mode \<open>\\u\<close> with four and \<open>\\U\<close> with eight hexadecimal digits give the code point
  of that value. The token \<open>"\\u00ff"\<close> fails in byte mode and gives U+00FF in text
  mode.
\<close>

theorem unicode_escapes:
  "(strip_delimiters token = Some (pre @ 92 # u # rest) \<and> (u = 117 \<or> u = 85)
      \<and> scan_body True pre = Inr xs \<longrightarrow> (\<exists>err. decode token True = Inl err))
   \<and> (list_all hex_digit ds \<and> (u = 117 \<and> length ds = 4 \<or> u = 85 \<and> length ds = 8) \<longrightarrow>
      scan_body False (92 # u # ds @ rest) = prepend [hex_value ds] (scan_body False rest))
   \<and> (\<exists>err. decode (34 # 92 # cps ''u00ff'' @ [34]) True = Inl err)
   \<and> decode (34 # 92 # cps ''u00ff'' @ [34]) False = Inr (Text [0xFF])"
proof (intro conjI impI)
  assume a: "strip_delimiters token = Some (pre @ 92 # u # rest) \<and> (u = 117 \<or> u = 85)
      \<and> scan_body True pre = Inr xs"
  then obtain err where "scan_body True (92 # u # rest) = Inl err"
    using scan_unicode_bytes [of u rest] by blast
  then have "scan_body True (pre @ 92 # u # rest) = Inl err"
    using a scan_prefix [of True pre xs "u # rest"] by simp
  then show "\<exists>err. decode token True = Inl err"
    using a by (simp add: decode_def)
next
  assume "list_all hex_digit ds \<and> (u = 117 \<and> length ds = 4 \<or> u = 85 \<and> length ds = 8)"
  then show "scan_body False (92 # u # ds @ rest) = prepend [hex_value ds] (scan_body False rest)"
    using scan_unicode_text [of ds u rest] by blast
next
  show "\<exists>err. decode (34 # 92 # cps ''u00ff'' @ [34]) True = Inl err"
    using unicode_examples(1) by blast
next
  show "decode (34 # 92 # cps ''u00ff'' @ [34]) False = Inr (Text [0xFF])"
    by (rule unicode_examples(2))
qed

lemma strip_ab: "strip_delimiters (34 # cps ''ab'' @ 92 # 117 # cps ''263A'' @ [34])
    = Some (cps ''ab'' @ 92 # 117 # cps ''263A'')"
  by code_simp

lemma scan_ab: "scan_body True (cps ''ab'') = Inr [97, 98]"
  by code_simp

lemma hex_263A: "list_all hex_digit (cps ''263A'')" "length (cps ''263A'') = 4"
  "hex_value (cps ''263A'') = 0x263A"
  by (simp_all add: cps_def hex_digit_def hex_value_def hex_digit_value_def byte_def)

theorem unicode_escapes_witness:
  "(\<exists>err. decode (34 # cps ''ab'' @ 92 # 117 # cps ''263A'' @ [34]) True = Inl err)
   \<and> scan_body False (92 # 117 # cps ''263A'' @ []) = Inr [0x263A]"
proof -
  have 1: "\<exists>err. decode (34 # cps ''ab'' @ 92 # 117 # cps ''263A'' @ [34]) True = Inl err"
    using unicode_escapes [where token = "34 # cps ''ab'' @ 92 # 117 # cps ''263A'' @ [34]"
        and pre = "cps ''ab''" and u = 117 and rest = "cps ''263A''" and xs = "[97, 98]"]
      strip_ab scan_ab
    by blast
  have "scan_body False (92 # 117 # cps ''263A'' @ [])
      = prepend [hex_value (cps ''263A'')] (scan_body False [])"
    using unicode_escapes [where u = 117 and ds = "cps ''263A''" and rest = "[]"] hex_263A
    by blast
  then have 2: "scan_body False (92 # 117 # cps ''263A'' @ []) = Inr [0x263A]"
    by (simp add: hex_263A scan_body.simps(1))
  from 1 2 show ?thesis by blast
qed

section \<open>No partial results\<close>







end
